theory Spec2Isabelle
  imports Main "HOL-Library.Product_Lexorder" "HOL-Library.Multiset"
begin

section \<open>Data model\<close>

text \<open>
  The rows of the four tables the two route handlers read
  (\<^verbatim>\<open>app/models/campaign.py\<close>, \<^verbatim>\<open>station.py\<close>, \<^verbatim>\<open>branch.py\<close>, \<^verbatim>\<open>image.py\<close>).
  A UUID is a natural number, a \<^verbatim>\<open>DateTime\<close> an integer count of microseconds.
  A nullable column is an \<open>option\<close>; the columns are nullable exactly where the migration
  says so (\<^verbatim>\<open>status\<close>, \<^verbatim>\<open>priority\<close>, \<^verbatim>\<open>is_deleted\<close>, the three targeting arrays, \<^verbatim>\<open>active\<close>,
  \<^verbatim>\<open>display_time\<close>, ...), and \<^verbatim>\<open>created_at\<close>, \<^verbatim>\<open>start_date\<close>, \<^verbatim>\<open>end_date\<close> are not.
  The elements of a targeting array are strings (\<^verbatim>\<open>ARRAY(String)\<close>, validated as
  \<^verbatim>\<open>List[str]\<close> on creation). Columns that neither handler reads (city, address,
  filename, url, updated_at, ...) are left out.
\<close>

type_synonym uuid = nat
type_synonym datetime = int

datatype campaign_status = Active | Scheduled | Paused | Expired

record campaign =
  c_id :: uuid
  c_name :: string
  c_description :: "string option"
  c_status :: "campaign_status option"
  c_start_date :: datetime
  c_end_date :: datetime
  c_default_display_time :: "int option"
  c_branches :: "string list option"
  c_regions :: "string list option"
  c_stations :: "string list option"
  c_priority :: "int option"
  c_is_deleted :: "bool option"
  c_created_at :: datetime

record branch =
  b_id :: uuid
  b_code :: string
  b_state :: string
  b_is_active :: "bool option"

record station =
  s_id :: uuid
  s_code :: string
  s_name :: string
  s_branch_id :: uuid
  s_is_active :: "bool option"

record campaign_image =
  i_id :: uuid
  i_campaign_id :: uuid
  i_order :: int
  i_display_time :: "int option"
  i_active :: "bool option"
  i_size_bytes :: "int option"
  i_mime_type :: "string option"
  i_width :: "int option"
  i_height :: "int option"

text \<open>
  The database session. Each table is the list of its rows in the order in which an
  unordered query hands them back; a query on a table raises when the table cannot be
  reached (\<open>*_ok\<close> is false).
\<close>

record database =
  stations_tbl :: "station list"
  branches_tbl :: "branch list"
  campaigns_tbl :: "campaign list"
  images_tbl :: "campaign_image list"
  stations_ok :: bool
  branches_ok :: bool
  campaigns_ok :: bool
  images_ok :: bool

datatype exn = OperationalError | ValueError | UnboundLocalError


section \<open>Regions (\<^verbatim>\<open>app/utils/regions.py\<close>)\<close>

definition STATE_TO_REGION :: "(string \<times> string) list" where
  "STATE_TO_REGION =
    [(''AC'', ''Norte''), (''AP'', ''Norte''), (''AM'', ''Norte''), (''PA'', ''Norte''),
     (''RO'', ''Norte''), (''RR'', ''Norte''), (''TO'', ''Norte''),
     (''AL'', ''Nordeste''), (''BA'', ''Nordeste''), (''CE'', ''Nordeste''),
     (''MA'', ''Nordeste''), (''PB'', ''Nordeste''), (''PE'', ''Nordeste''),
     (''PI'', ''Nordeste''), (''RN'', ''Nordeste''), (''SE'', ''Nordeste''),
     (''DF'', ''Centro-Oeste''), (''GO'', ''Centro-Oeste''), (''MT'', ''Centro-Oeste''),
     (''MS'', ''Centro-Oeste''),
     (''ES'', ''Sudeste''), (''MG'', ''Sudeste''), (''RJ'', ''Sudeste''), (''SP'', ''Sudeste''),
     (''PR'', ''Sul''), (''RS'', ''Sul''), (''SC'', ''Sul'')]"

text \<open>\<^verbatim>\<open>str.upper\<close> on the ASCII letters; a state code is two ASCII characters.\<close>

definition upper_char :: "char \<Rightarrow> char" where
  "upper_char c =
     (if (97::nat) \<le> of_char c \<and> of_char c \<le> (122::nat)
      then char_of (of_char c - (32::nat)) else c)"

definition upper :: "string \<Rightarrow> string" where
  "upper s = map upper_char s"

definition get_region_by_state :: "string \<Rightarrow> string option" where
  "get_region_by_state state = map_of STATE_TO_REGION (upper state)"

text \<open>The \<^verbatim>\<open>Branch.region\<close> property.\<close>

definition b_region :: "branch \<Rightarrow> string option" where
  "b_region b = get_region_by_state (b_state b)"


section \<open>Queries\<close>

text \<open>
  \<^verbatim>\<open>db.query(Station).filter(Station.code == station_code, Station.is_active == True).first()\<close>:
  the first row, in the order the table hands rows back, with that code and a true
  (not null) active flag. The branch is no part of the filter. The requested code is
  bound as a query parameter, and the database driver refuses a string with a NUL
  character with a \<^verbatim>\<open>ValueError\<close>; PostgreSQL stores no such string, so no row has
  such a code.
\<close>

definition NUL :: char where
  "NUL = CHR 0x00"

definition query_station :: "database \<Rightarrow> string \<Rightarrow> exn + station option" where
  "query_station db station_code =
     (if \<not> stations_ok db then Inl OperationalError
      else if NUL \<in> set station_code then Inl ValueError
      else Inr (find (\<lambda>s. s_code s = station_code \<and> s_is_active s = Some True)
                 (stations_tbl db)))"

text \<open>The lazy load of the relationship \<^verbatim>\<open>station.branch\<close>.\<close>

definition station_branch :: "database \<Rightarrow> station \<Rightarrow> exn + branch option" where
  "station_branch db s =
     (if branches_ok db
      then Inr (find (\<lambda>b. b_id b = s_branch_id s) (branches_tbl db))
      else Inl OperationalError)"

text \<open>
  The filter of the candidate query: \<^verbatim>\<open>is_deleted == False\<close>, \<^verbatim>\<open>status == "active"\<close>,
  \<^verbatim>\<open>start_date <= now\<close>, \<^verbatim>\<open>end_date >= now\<close>. In SQL a comparison with NULL is not true,
  so a row with a null flag or a null status is not selected.
\<close>

definition is_candidate :: "datetime \<Rightarrow> campaign \<Rightarrow> bool" where
  "is_candidate now c =
     (c_is_deleted c = Some False \<and> c_status c = Some Active
      \<and> c_start_date c \<le> now \<and> c_end_date c \<ge> now)"

definition query_active_campaigns :: "database \<Rightarrow> datetime \<Rightarrow> exn + campaign list" where
  "query_active_campaigns db now =
     (if campaigns_ok db
      then Inr (filter (is_candidate now) (campaigns_tbl db))
      else Inl OperationalError)"

text \<open>
  The image query of the tablet handler: the active images of one campaign,
  \<^verbatim>\<open>order_by(CampaignImage.order)\<close>. PostgreSQL leaves the order of rows with the same
  \<^verbatim>\<open>order\<close> unspecified; here they come in the row order of \<open>images_tbl\<close>, which is
  arbitrary, and nothing below depends on it.
\<close>

definition query_active_images :: "database \<Rightarrow> uuid \<Rightarrow> exn + campaign_image list" where
  "query_active_images db cid =
     (if images_ok db
      then Inr (sort_key i_order
             (filter (\<lambda>i. i_campaign_id i = cid \<and> i_active i = Some True) (images_tbl db)))
      else Inl OperationalError)"


section \<open>Python helpers\<close>

text \<open>\<^verbatim>\<open>x or []\<close> on a nullable array.\<close>

definition or_empty :: "'a list option \<Rightarrow> 'a list" where
  "or_empty a = (case a of None \<Rightarrow> [] | Some xs \<Rightarrow> xs)"

text \<open>\<^verbatim>\<open>x in xs\<close> for a value that may be \<^verbatim>\<open>None\<close> and a list of strings.\<close>

definition py_in :: "string option \<Rightarrow> string list \<Rightarrow> bool" where
  "py_in x xs = (case x of None \<Rightarrow> False | Some v \<Rightarrow> v \<in> set xs)"

text \<open>
  \<^verbatim>\<open>sorted(xs, key=k, reverse=True)\<close>: CPython reverses the list, sorts it with a stable
  ascending sort and reverses the result, so that elements with equal keys keep their
  original order.
\<close>

definition sorted_reverse :: "('a \<Rightarrow> 'k::linorder) \<Rightarrow> 'a list \<Rightarrow> 'a list" where
  "sorted_reverse k xs = rev (sort_key k (rev xs))"

text \<open>
  The key \<^verbatim>\<open>lambda x: (-x.priority if x.priority else 0, x.created_at)\<close>; tuples compare
  lexicographically. \<^verbatim>\<open>created_at\<close> is never null, so comparing two keys does not raise.
\<close>

definition rank_key :: "campaign \<Rightarrow> int \<times> datetime" where
  "rank_key x =
     ((case c_priority x of None \<Rightarrow> 0 | Some p \<Rightarrow> if p \<noteq> 0 then - p else 0), c_created_at x)"


text \<open>The truth value of a nullable array: \<^verbatim>\<open>None\<close> and \<^verbatim>\<open>[]\<close> are false.\<close>

definition truthy :: "'a list option \<Rightarrow> bool" where
  "truthy a = (case a of None \<Rightarrow> False | Some xs \<Rightarrow> xs \<noteq> [])"

text \<open>
  The local variables of a handler after its \<^verbatim>\<open>try\<close>/\<^verbatim>\<open>except\<close> statement. \<^verbatim>\<open>station\<close>,
  \<^verbatim>\<open>branch_code\<close> and \<^verbatim>\<open>region\<close> are assigned inside the \<^verbatim>\<open>try\<close> block only, so an
  exception can leave them unbound: the outer \<open>None\<close>. \<^verbatim>\<open>campaigns\<close> is bound on both
  paths.
\<close>

record locals =
  l_station :: "station option option"
  l_branch_code :: "string option option"
  l_region :: "string option option"
  l_campaigns :: "campaign list"

text \<open>
  \<^verbatim>\<open>branch_code if station else None\<close> (and the same for \<^verbatim>\<open>region\<close>) in the response:
  reading an unbound local raises \<^verbatim>\<open>UnboundLocalError\<close>.
\<close>

definition read_if_station :: "locals \<Rightarrow> string option option \<Rightarrow> exn + string option" where
  "read_if_station l v =
     (case l_station l of
        None \<Rightarrow> Inl UnboundLocalError
      | Some None \<Rightarrow> Inr None
      | Some (Some s) \<Rightarrow> (case v of None \<Rightarrow> Inl UnboundLocalError | Some x \<Rightarrow> Inr x))"

text \<open>
  Lines 188-191 of \<^verbatim>\<open>campaigns.py\<close> (98-101 of \<^verbatim>\<open>tablets.py\<close>): the branch code and the
  region of the station found, both \<^verbatim>\<open>None\<close> without a station.
\<close>

definition station_location :: "database \<Rightarrow> station option \<Rightarrow> exn + (string option \<times> string option)" where
  "station_location db station =
     (case station of
        None \<Rightarrow> Inr (None, None)
      | Some s \<Rightarrow>
          (case station_branch db s of
             Inl e \<Rightarrow> Inl e
           | Inr branch \<Rightarrow>
               Inr (case branch of None \<Rightarrow> None | Some b \<Rightarrow> Some (b_code b),
                    case branch of None \<Rightarrow> None | Some b \<Rightarrow> b_region b)))"


section \<open>The dashboard handler: \<^verbatim>\<open>active_by_station\<close> in \<^verbatim>\<open>app/routes/campaigns.py\<close>\<close>

text \<open>The body of the loop of lines 193-222: is the campaign appended?\<close>

definition active_by_station_match ::
  "station option \<Rightarrow> string option \<Rightarrow> string option \<Rightarrow> string \<Rightarrow> campaign \<Rightarrow> bool" where
  "active_by_station_match station branch_code region station_code campaign =
     (let branches = or_empty (c_branches campaign);
          regions = or_empty (c_regions campaign);
          stations = or_empty (c_stations campaign)
      in if branches = [] \<and> regions = [] \<and> stations = [] then True
         else if station = None then False
         else if regions \<noteq> [] \<and> branches = [] \<and> stations = [] then py_in region regions
         else if branches \<noteq> [] \<and> stations = [] then py_in branch_code branches
         else if branches \<noteq> [] \<and> stations \<noteq> []
           then py_in branch_code branches \<and> py_in (Some station_code) stations
         else False)"

fun active_by_station_loop ::
  "station option \<Rightarrow> string option \<Rightarrow> string option \<Rightarrow> string \<Rightarrow> campaign list
     \<Rightarrow> campaign list \<Rightarrow> campaign list" where
  "active_by_station_loop station branch_code region station_code [] campaigns = campaigns"
| "active_by_station_loop station branch_code region station_code (campaign # rest) campaigns =
     (if active_by_station_match station branch_code region station_code campaign
      then active_by_station_loop station branch_code region station_code rest (campaigns @ [campaign])
      else active_by_station_loop station branch_code region station_code rest campaigns)"

text \<open>Lines 225-231: the loop over the sorted list that keeps the first row of each id.\<close>

fun active_by_station_unique :: "uuid set \<Rightarrow> campaign list \<Rightarrow> campaign list \<Rightarrow> campaign list" where
  "active_by_station_unique seen [] unique_campaigns = unique_campaigns"
| "active_by_station_unique seen (c # cs) unique_campaigns =
     (if c_id c \<notin> seen
      then active_by_station_unique (insert (c_id c) seen) cs (unique_campaigns @ [c])
      else active_by_station_unique seen cs unique_campaigns)"

text \<open>
  The \<^verbatim>\<open>try\<close>/\<^verbatim>\<open>except\<close> statement of lines 162-237. Any exception ends in
  \<^verbatim>\<open>campaigns = []\<close>, with the locals bound so far.
\<close>

definition active_by_station_try :: "database \<Rightarrow> string \<Rightarrow> datetime \<Rightarrow> locals" where
  "active_by_station_try db station_code now =
     (case query_station db station_code of
        Inl e \<Rightarrow> \<lparr>l_station = None, l_branch_code = None, l_region = None, l_campaigns = []\<rparr>
      | Inr station \<Rightarrow>
          (case query_active_campaigns db now of
             Inl e \<Rightarrow>
               \<lparr>l_station = Some station, l_branch_code = None, l_region = None, l_campaigns = []\<rparr>
           | Inr all_campaigns \<Rightarrow>
               (case station_location db station of
                  Inl e \<Rightarrow>
                    \<lparr>l_station = Some station, l_branch_code = Some None, l_region = Some None,
                     l_campaigns = []\<rparr>
                | Inr (branch_code, region) \<Rightarrow>
                    \<lparr>l_station = Some station, l_branch_code = Some branch_code,
                     l_region = Some region,
                     l_campaigns =
                       active_by_station_unique {}
                         (sorted_reverse rank_key
                            (active_by_station_loop station branch_code region station_code
                               all_campaigns []))
                         []\<rparr>)))"

record campaign_entry =
  e_id :: uuid
  e_name :: string
  e_description :: "string option"
  e_default_display_time :: "int option"
  e_priority :: "int option"
  e_targeting_level :: string

text \<open>Lines 250-255.\<close>

definition active_by_station_level :: "campaign \<Rightarrow> string" where
  "active_by_station_level c =
     (if \<not> truthy (c_branches c) \<and> \<not> truthy (c_regions c) \<and> \<not> truthy (c_stations c)
        then ''global''
      else if truthy (c_regions c) \<and> \<not> truthy (c_branches c) then ''regional''
      else if truthy (c_branches c) \<and> \<not> truthy (c_stations c) then ''branch''
      else ''station'')"

definition active_by_station_entry :: "campaign \<Rightarrow> campaign_entry" where
  "active_by_station_entry c =
     \<lparr>e_id = c_id c, e_name = c_name c, e_description = c_description c,
      e_default_display_time = c_default_display_time c, e_priority = c_priority c,
      e_targeting_level = active_by_station_level c\<rparr>"

text \<open>The response of lines 239-261, without its wall-clock \<^verbatim>\<open>timestamp\<close>.\<close>

record response =
  r_station_code :: string
  r_branch_code :: "string option"
  r_region :: "string option"
  r_campaigns :: "campaign_entry list"
  r_total :: nat

definition active_by_station :: "database \<Rightarrow> string \<Rightarrow> datetime \<Rightarrow> exn + response" where
  "active_by_station db station_code now =
     (let l = active_by_station_try db station_code now
      in case read_if_station l (l_branch_code l) of
           Inl e \<Rightarrow> Inl e
         | Inr bc \<Rightarrow>
             (case read_if_station l (l_region l) of
                Inl e \<Rightarrow> Inl e
              | Inr rg \<Rightarrow>
                  Inr \<lparr>r_station_code = station_code, r_branch_code = bc, r_region = rg,
                       r_campaigns = map active_by_station_entry (l_campaigns l),
                       r_total = length (l_campaigns l)\<rparr>))"


section \<open>The tablet handler: \<^verbatim>\<open>get_active_for_station\<close> in \<^verbatim>\<open>app/routes/tablets.py\<close>\<close>

text \<open>The body of the loop of lines 103-132.\<close>

definition get_active_for_station_match ::
  "station option \<Rightarrow> string option \<Rightarrow> string option \<Rightarrow> string \<Rightarrow> campaign \<Rightarrow> bool" where
  "get_active_for_station_match station branch_code region station_code campaign =
     (let branches = or_empty (c_branches campaign);
          regions = or_empty (c_regions campaign);
          stations = or_empty (c_stations campaign)
      in if branches = [] \<and> regions = [] \<and> stations = [] then True
         else if station = None then False
         else if regions \<noteq> [] \<and> branches = [] \<and> stations = [] then py_in region regions
         else if branches \<noteq> [] \<and> stations = [] then py_in branch_code branches
         else if branches \<noteq> [] \<and> stations \<noteq> []
           then py_in branch_code branches \<and> py_in (Some station_code) stations
         else False)"

fun get_active_for_station_loop ::
  "station option \<Rightarrow> string option \<Rightarrow> string option \<Rightarrow> string \<Rightarrow> campaign list
     \<Rightarrow> campaign list \<Rightarrow> campaign list" where
  "get_active_for_station_loop station branch_code region station_code [] campaigns = campaigns"
| "get_active_for_station_loop station branch_code region station_code (campaign # rest) campaigns =
     (if get_active_for_station_match station branch_code region station_code campaign
      then get_active_for_station_loop station branch_code region station_code rest
             (campaigns @ [campaign])
      else get_active_for_station_loop station branch_code region station_code rest campaigns)"

text \<open>Lines 135-145.\<close>

fun get_active_for_station_unique ::
  "uuid set \<Rightarrow> campaign list \<Rightarrow> campaign list \<Rightarrow> campaign list" where
  "get_active_for_station_unique seen [] unique_campaigns = unique_campaigns"
| "get_active_for_station_unique seen (c # cs) unique_campaigns =
     (if c_id c \<notin> seen
      then get_active_for_station_unique (insert (c_id c) seen) cs (unique_campaigns @ [c])
      else get_active_for_station_unique seen cs unique_campaigns)"

text \<open>The \<^verbatim>\<open>try\<close>/\<^verbatim>\<open>except\<close> statement of lines 71-152.\<close>

definition get_active_for_station_try :: "database \<Rightarrow> string \<Rightarrow> datetime \<Rightarrow> locals" where
  "get_active_for_station_try db station_code now =
     (case query_station db station_code of
        Inl e \<Rightarrow> \<lparr>l_station = None, l_branch_code = None, l_region = None, l_campaigns = []\<rparr>
      | Inr station \<Rightarrow>
          (case query_active_campaigns db now of
             Inl e \<Rightarrow>
               \<lparr>l_station = Some station, l_branch_code = None, l_region = None, l_campaigns = []\<rparr>
           | Inr all_campaigns \<Rightarrow>
               (case station_location db station of
                  Inl e \<Rightarrow>
                    \<lparr>l_station = Some station, l_branch_code = Some None, l_region = Some None,
                     l_campaigns = []\<rparr>
                | Inr (branch_code, region) \<Rightarrow>
                    \<lparr>l_station = Some station, l_branch_code = Some branch_code,
                     l_region = Some region,
                     l_campaigns =
                       get_active_for_station_unique {}
                         (sorted_reverse rank_key
                            (get_active_for_station_loop station branch_code region station_code
                               all_campaigns []))
                         []\<rparr>)))"

text \<open>
  One formatted image (lines 191-204), without \<^verbatim>\<open>checksum\<close> and \<^verbatim>\<open>download_url\<close>, which
  are functions of the image id alone. \<^verbatim>\<open>display_time\<close> is the image's own column.
\<close>

record image_entry =
  ie_id :: uuid
  ie_campaign_id :: uuid
  ie_order_index :: int
  ie_display_time :: "int option"
  ie_width :: "int option"
  ie_height :: "int option"
  ie_mime_type :: "string option"
  ie_size_bytes :: "int option"

definition format_image :: "campaign \<Rightarrow> campaign_image \<Rightarrow> image_entry" where
  "format_image c img =
     \<lparr>ie_id = i_id img, ie_campaign_id = c_id c, ie_order_index = i_order img,
      ie_display_time = i_display_time img, ie_width = i_width img, ie_height = i_height img,
      ie_mime_type = i_mime_type img, ie_size_bytes = i_size_bytes img\<rparr>"

record tablet_entry =
  te_id :: uuid
  te_name :: string
  te_description :: "string option"
  te_default_display_time :: "int option"
  te_priority :: int
  te_targeting_level :: string
  te_start_date :: datetime
  te_end_date :: datetime
  te_images :: "image_entry list"

text \<open>Lines 213-227.\<close>

definition get_active_for_station_level :: "campaign \<Rightarrow> string" where
  "get_active_for_station_level c =
     (if or_empty (c_branches c) = [] \<and> or_empty (c_regions c) = [] \<and> or_empty (c_stations c) = []
        then ''global''
      else if or_empty (c_regions c) \<noteq> [] \<and> or_empty (c_branches c) = [] then ''regional''
      else if or_empty (c_branches c) \<noteq> [] \<and> or_empty (c_stations c) = [] then ''branch''
      else ''station'')"

definition get_active_for_station_entry :: "campaign \<Rightarrow> image_entry list \<Rightarrow> tablet_entry" where
  "get_active_for_station_entry c formatted_images =
     \<lparr>te_id = c_id c, te_name = c_name c, te_description = c_description c,
      te_default_display_time = c_default_display_time c,
      te_priority = (case c_priority c of None \<Rightarrow> 0 | Some p \<Rightarrow> p),
      te_targeting_level = get_active_for_station_level c,
      te_start_date = c_start_date c, te_end_date = c_end_date c,
      te_images = formatted_images\<rparr>"

text \<open>
  The loop of lines 155-232, outside the \<^verbatim>\<open>try\<close>: a failing image query is not caught.
\<close>

fun campaigns_with_images :: "database \<Rightarrow> campaign list \<Rightarrow> exn + tablet_entry list" where
  "campaigns_with_images db [] = Inr []"
| "campaigns_with_images db (c # cs) =
     (case query_active_images db (c_id c) of
        Inl e \<Rightarrow> Inl e
      | Inr images \<Rightarrow>
          (case campaigns_with_images db cs of
             Inl e \<Rightarrow> Inl e
           | Inr entries \<Rightarrow>
               Inr (get_active_for_station_entry c (map (format_image c) images) # entries)))"

text \<open>
  The response of lines 237-250, without \<^verbatim>\<open>timestamp\<close>; \<^verbatim>\<open>request_id\<close> is the header
  \<^verbatim>\<open>x-request-id\<close>, copied when it is not empty.
\<close>

record tablet_response =
  t_station_code :: string
  t_branch_code :: "string option"
  t_region :: "string option"
  t_campaigns :: "tablet_entry list"
  t_total :: nat
  t_cache_ttl :: nat
  t_request_id :: "string option"

definition get_active_for_station ::
  "database \<Rightarrow> string \<Rightarrow> string option \<Rightarrow> datetime \<Rightarrow> exn + tablet_response" where
  "get_active_for_station db station_code request_id now =
     (let l = get_active_for_station_try db station_code now
      in case campaigns_with_images db (l_campaigns l) of
           Inl e \<Rightarrow> Inl e
         | Inr entries \<Rightarrow>
             (case read_if_station l (l_branch_code l) of
                Inl e \<Rightarrow> Inl e
              | Inr bc \<Rightarrow>
                  (case read_if_station l (l_region l) of
                     Inl e \<Rightarrow> Inl e
                   | Inr rg \<Rightarrow>
                       Inr \<lparr>t_station_code = station_code, t_branch_code = bc, t_region = rg,
                            t_campaigns = entries, t_total = length (l_campaigns l),
                            t_cache_ttl = 120,
                            t_request_id =
                              (case request_id of
                                 None \<Rightarrow> None
                               | Some r \<Rightarrow> if r \<noteq> [] then Some r else None)\<rparr>)))"


section \<open>Example databases\<close>

text \<open>An active, undeleted campaign, in the window from 0 to 100, created at 0.\<close>

definition mk_campaign ::
  "uuid \<Rightarrow> string \<Rightarrow> string list \<Rightarrow> string list \<Rightarrow> string list \<Rightarrow> int \<Rightarrow> campaign" where
  "mk_campaign i n bs rs ss p =
     \<lparr>c_id = i, c_name = n, c_description = None, c_status = Some Active,
      c_start_date = 0, c_end_date = 100, c_default_display_time = Some 5000,
      c_branches = Some bs, c_regions = Some rs, c_stations = Some ss, c_priority = Some p,
      c_is_deleted = Some False, c_created_at = 0\<rparr>"

text \<open>
  The scenario of the specification: branch SP01 in the state SP with station 001; a
  global campaign A of priority 0, a regional campaign B of priority 5 for the region of
  SP, a branch campaign C of priority 3 and a campaign D of priority 10 for station 002.
\<close>

definition scenario_db :: database where
  "scenario_db =
     \<lparr>stations_tbl =
        [\<lparr>s_id = 1, s_code = ''001'', s_name = ''Posto'', s_branch_id = 1,
          s_is_active = Some True\<rparr>],
      branches_tbl = [\<lparr>b_id = 1, b_code = ''SP01'', b_state = ''SP'', b_is_active = Some True\<rparr>],
      campaigns_tbl =
        [mk_campaign 1 ''A'' [] [] [] 0, mk_campaign 2 ''B'' [] [''Sudeste''] [] 5,
         mk_campaign 3 ''C'' [''SP01''] [] [] 3, mk_campaign 4 ''D'' [''SP01''] [] [''002''] 10],
      images_tbl = [],
      stations_ok = True, branches_ok = True, campaigns_ok = True, images_ok = True\<rparr>"

text \<open>
  Four campaigns read at time 50: one starting at 50, one ending at 50, one that ended
  at 49, and one in its window but paused.
\<close>

definition window_db :: database where
  "window_db =
     scenario_db
       \<lparr>campaigns_tbl :=
          [(mk_campaign 1 ''starts'' [] [] [] 0)\<lparr>c_start_date := 50\<rparr>,
           (mk_campaign 2 ''ends'' [] [] [] 0)\<lparr>c_end_date := 50\<rparr>,
           (mk_campaign 3 ''ended'' [] [] [] 0)\<lparr>c_end_date := 49\<rparr>,
           (mk_campaign 4 ''paused'' [] [] [] 0)\<lparr>c_status := Some Paused\<rparr>]\<rparr>"

text \<open>Station 001 of branch 020202, and a campaign for station 001 of branch 010101.\<close>

definition wrong_branch_db :: database where
  "wrong_branch_db =
     scenario_db
       \<lparr>stations_tbl :=
          [\<lparr>s_id = 1, s_code = ''001'', s_name = ''Posto'', s_branch_id = 2,
            s_is_active = Some True\<rparr>],
        branches_tbl :=
          [\<lparr>b_id = 1, b_code = ''010101'', b_state = ''SP'', b_is_active = Some True\<rparr>,
           \<lparr>b_id = 2, b_code = ''020202'', b_state = ''SP'', b_is_active = Some True\<rparr>],
        campaigns_tbl := [mk_campaign 1 ''E'' [''010101''] [] [''001''] 0]\<rparr>"

text \<open>Two global campaigns with the same priority and creation time, in both row orders.\<close>

definition tie_db :: database where
  "tie_db =
     scenario_db
       \<lparr>campaigns_tbl := [mk_campaign 1 ''X'' [] [] [] 1, mk_campaign 2 ''Y'' [] [] [] 1]\<rparr>"

definition tie_db_swapped :: database where
  "tie_db_swapped =
     scenario_db
       \<lparr>campaigns_tbl := [mk_campaign 2 ''Y'' [] [] [] 1, mk_campaign 1 ''X'' [] [] [] 1]\<rparr>"

text \<open>
  Four global campaigns none of which shares both priority and creation time with
  another: P and Q have priority 1 and were created at 10 and 20, R has priority 2 and S
  a null priority, both created at 10. The second database has the same rows in another
  order.
\<close>

definition distinct_keys_db :: database where
  "distinct_keys_db =
     scenario_db
       \<lparr>campaigns_tbl :=
          [(mk_campaign 1 ''P'' [] [] [] 1)\<lparr>c_created_at := 10\<rparr>,
           (mk_campaign 2 ''Q'' [] [] [] 1)\<lparr>c_created_at := 20\<rparr>,
           (mk_campaign 3 ''R'' [] [] [] 2)\<lparr>c_created_at := 10\<rparr>,
           (mk_campaign 4 ''S'' [] [] [] 0)\<lparr>c_priority := None, c_created_at := 10\<rparr>]\<rparr>"

definition distinct_keys_db_permuted :: database where
  "distinct_keys_db_permuted =
     scenario_db
       \<lparr>campaigns_tbl :=
          [(mk_campaign 3 ''R'' [] [] [] 2)\<lparr>c_created_at := 10\<rparr>,
           (mk_campaign 4 ''S'' [] [] [] 0)\<lparr>c_priority := None, c_created_at := 10\<rparr>,
           (mk_campaign 2 ''Q'' [] [] [] 1)\<lparr>c_created_at := 20\<rparr>,
           (mk_campaign 1 ''P'' [] [] [] 1)\<lparr>c_created_at := 10\<rparr>]\<rparr>"

text \<open>
  The scenario with two more campaigns: E for station 001 of branch SP01, and F with a
  region and a station but no branch, placed between the others.
\<close>

definition mixed_db :: database where
  "mixed_db =
     scenario_db
       \<lparr>campaigns_tbl :=
          [mk_campaign 1 ''A'' [] [] [] 0, mk_campaign 2 ''B'' [] [''Sudeste''] [] 5,
           mk_campaign 6 ''F'' [] [''Sudeste''] [''001''] 1,
           mk_campaign 3 ''C'' [''SP01''] [] [] 3, mk_campaign 4 ''D'' [''SP01''] [] [''002''] 10,
           mk_campaign 5 ''E'' [''SP01''] [] [''001''] 7]\<rparr>"

text \<open>The same without F.\<close>

definition mixed_db_without :: database where
  "mixed_db_without =
     scenario_db
       \<lparr>campaigns_tbl :=
          [mk_campaign 1 ''A'' [] [] [] 0, mk_campaign 2 ''B'' [] [''Sudeste''] [] 5,
           mk_campaign 3 ''C'' [''SP01''] [] [] 3, mk_campaign 4 ''D'' [''SP01''] [] [''002''] 10,
           mk_campaign 5 ''E'' [''SP01''] [] [''001''] 7]\<rparr>"

text \<open>
  Two active stations with the code 001, the first of branch 010101 and the second of
  branch 020202, and a campaign for station 001 of branch 010101.
\<close>

definition shared_wrong_branch_db :: database where
  "shared_wrong_branch_db =
     scenario_db
       \<lparr>stations_tbl :=
          [\<lparr>s_id = 1, s_code = ''001'', s_name = ''Posto 1'', s_branch_id = 1,
            s_is_active = Some True\<rparr>,
           \<lparr>s_id = 2, s_code = ''001'', s_name = ''Posto 2'', s_branch_id = 2,
            s_is_active = Some True\<rparr>],
        branches_tbl :=
          [\<lparr>b_id = 1, b_code = ''010101'', b_state = ''SP'', b_is_active = Some True\<rparr>,
           \<lparr>b_id = 2, b_code = ''020202'', b_state = ''SP'', b_is_active = Some True\<rparr>],
        campaigns_tbl := [mk_campaign 1 ''E'' [''010101''] [] [''001''] 0]\<rparr>"

text \<open>
  One global campaign with a default display time of 5000 and four image rows: two
  active ones, the first without a display time of its own, an inactive one, and one of
  another campaign.
\<close>

definition images_db :: database where
  "images_db =
     scenario_db
       \<lparr>campaigns_tbl := [mk_campaign 1 ''A'' [] [] [] 0],
        images_tbl :=
          [\<lparr>i_id = 10, i_campaign_id = 1, i_order = 2, i_display_time = None,
            i_active = Some True, i_size_bytes = None, i_mime_type = None, i_width = None,
            i_height = None\<rparr>,
           \<lparr>i_id = 11, i_campaign_id = 1, i_order = 1, i_display_time = Some 3000,
            i_active = Some True, i_size_bytes = None, i_mime_type = None, i_width = None,
            i_height = None\<rparr>,
           \<lparr>i_id = 12, i_campaign_id = 1, i_order = 0, i_display_time = None,
            i_active = Some False, i_size_bytes = None, i_mime_type = None, i_width = None,
            i_height = None\<rparr>,
           \<lparr>i_id = 13, i_campaign_id = 2, i_order = 0, i_display_time = None,
            i_active = Some True, i_size_bytes = None, i_mime_type = None, i_width = None,
            i_height = None\<rparr>]\<rparr>"




text \<open>The scenario with a campaign table that cannot be read.\<close>

definition catalog_down_db :: database where
  "catalog_down_db = scenario_db\<lparr>campaigns_ok := False\<rparr>"

text \<open>The scenario with a branch table that cannot be read.\<close>

definition branches_down_db :: database where
  "branches_down_db = scenario_db\<lparr>branches_ok := False\<rparr>"


section \<open>The two handlers run the same resolution\<close>

lemma active_by_station_loop_filter:
  "active_by_station_loop st bc rg sc xs acc
     = acc @ filter (active_by_station_match st bc rg sc) xs"
  by (induction xs arbitrary: acc) simp_all

lemma match_same:
  "get_active_for_station_match st bc rg sc c = active_by_station_match st bc rg sc c"
  by (simp add: get_active_for_station_match_def active_by_station_match_def)

lemma loop_same:
  "get_active_for_station_loop st bc rg sc xs acc = active_by_station_loop st bc rg sc xs acc"
  by (induction xs arbitrary: acc) (simp_all add: match_same)

lemma unique_same:
  "get_active_for_station_unique seen xs acc = active_by_station_unique seen xs acc"
  by (induction xs arbitrary: seen acc) simp_all

lemma try_same:
  "get_active_for_station_try db sc now = active_by_station_try db sc now"
  by (simp add: get_active_for_station_try_def active_by_station_try_def loop_same unique_same
      split: sum.splits prod.splits)

lemma level_same: "get_active_for_station_level c = active_by_station_level c"
  by (auto simp add: get_active_for_station_level_def active_by_station_level_def truthy_def
      or_empty_def split: option.splits)


section \<open>Ranking and the removal of duplicates\<close>

lemma unique_ids:
  "c_id ` set (active_by_station_unique seen xs acc) = c_id ` set acc \<union> (c_id ` set xs - seen)"
  by (induction xs arbitrary: seen acc) auto

lemma unique_subset:
  "set (active_by_station_unique seen xs acc) \<subseteq> set acc \<union> set xs"
proof (induction xs arbitrary: seen acc)
  case Nil
  then show ?case by simp
next
  case (Cons a xs)
  have "set (active_by_station_unique (insert (c_id a) seen) xs (acc @ [a]))
          \<subseteq> set (acc @ [a]) \<union> set xs"
    by (rule Cons.IH)
  moreover have "set (active_by_station_unique seen xs acc) \<subseteq> set acc \<union> set xs"
    by (rule Cons.IH)
  ultimately show ?case by auto
qed

lemma unique_distinct:
  "distinct (map c_id acc) \<Longrightarrow> c_id ` set acc \<subseteq> seen \<Longrightarrow>
     distinct (map c_id (active_by_station_unique seen xs acc))"
proof (induction xs arbitrary: seen acc)
  case Nil
  then show ?case by simp
next
  case (Cons a xs)
  show ?case
  proof (cases "c_id a \<in> seen")
    case True
    then show ?thesis using Cons.IH [OF Cons.prems] by simp
  next
    case False
    have d: "distinct (map c_id (acc @ [a]))" using Cons.prems False by auto
    have s: "c_id ` set (acc @ [a]) \<subseteq> insert (c_id a) seen" using Cons.prems by auto
    show ?thesis using False Cons.IH [OF d s] by simp
  qed
qed

lemma unique_of_distinct:
  "distinct (map c_id xs) \<Longrightarrow> c_id ` set xs \<inter> seen = {} \<Longrightarrow>
     active_by_station_unique seen xs acc = acc @ xs"
  by (induction xs arbitrary: seen acc) auto

lemma set_sorted_reverse: "set (sorted_reverse k xs) = set xs"
  by (simp add: sorted_reverse_def)

lemma mset_sorted_reverse: "mset (sorted_reverse k xs) = mset xs"
  by (simp add: sorted_reverse_def)

lemma distinct_sorted_reverse:
  assumes "distinct (map f xs)"
  shows "distinct (map f (sorted_reverse k xs))"
proof -
  have "mset (map f (sorted_reverse k xs)) = mset (map f xs)"
    by (simp add: mset_sorted_reverse)
  then show ?thesis using assms by (metis distinct_count_atmost_1 set_mset_mset)
qed

lemma sorted_reverse_perm:
  assumes "mset xs = mset ys" and "inj_on k (set xs)"
  shows "sorted_reverse k xs = sorted_reverse k ys"
proof -
  have "mset (rev xs) = mset (sort_key k (rev ys))" using assms(1) by simp
  moreover have "inj_on k (set (rev xs))" using assms(2) by simp
  moreover have "sorted (map k (sort_key k (rev ys)))" by simp
  ultimately have "sort_key k (rev xs) = sort_key k (rev ys)"
    by (rule sort_key_inj_key_eq)
  then show ?thesis by (simp add: sorted_reverse_def)
qed


section \<open>What the handlers return when no query fails\<close>

lemma try_resolved:
  assumes "query_station db sc = Inr st" and "query_active_campaigns db now = Inr cs"
    and "station_location db st = Inr (bc, rg)"
  shows "active_by_station_try db sc now =
           \<lparr>l_station = Some st, l_branch_code = Some bc, l_region = Some rg,
            l_campaigns =
              active_by_station_unique {}
                (sorted_reverse rank_key (filter (active_by_station_match st bc rg sc) cs)) []\<rparr>"
  using assms by (simp add: active_by_station_try_def active_by_station_loop_filter)

lemma location_none:
  "station_location db None = Inr (None, None)"
  by (simp add: station_location_def)

lemma location_unknown:
  assumes "station_location db st = Inr (bc, rg)" and "st = None"
  shows "bc = None \<and> rg = None"
  using assms by (simp add: station_location_def)

lemma handler_resolved:
  assumes "query_station db sc = Inr st" and "query_active_campaigns db now = Inr cs"
    and "station_location db st = Inr (bc, rg)"
  shows "active_by_station db sc now =
           Inr \<lparr>r_station_code = sc, r_branch_code = bc, r_region = rg,
                r_campaigns = map active_by_station_entry
                  (active_by_station_unique {}
                    (sorted_reverse rank_key (filter (active_by_station_match st bc rg sc) cs)) []),
                r_total = length
                  (active_by_station_unique {}
                    (sorted_reverse rank_key (filter (active_by_station_match st bc rg sc) cs)) [])\<rparr>"
proof (cases st)
  case None
  then have "bc = None \<and> rg = None" using assms(3) by (simp add: station_location_def)
  then show ?thesis using None try_resolved [OF assms]
    by (simp add: active_by_station_def read_if_station_def)
next
  case (Some s)
  then show ?thesis using try_resolved [OF assms]
    by (simp add: active_by_station_def read_if_station_def)
qed

lemma campaigns_with_images_ok:
  assumes "images_ok db"
  shows "campaigns_with_images db cs =
           Inr (map (\<lambda>c. get_active_for_station_entry c
                  (map (format_image c)
                     (sort_key i_order
                        (filter (\<lambda>i. i_campaign_id i = c_id c \<and> i_active i = Some True)
                           (images_tbl db))))) cs)"
  using assms by (induction cs) (simp_all add: query_active_images_def)

lemma campaigns_with_images_nil: "campaigns_with_images db [] = Inr []"
  by simp

lemma tablet_follows:
  assumes "images_ok db" and "active_by_station db sc now = Inr r"
  shows "\<exists>t. get_active_for_station db sc rid now = Inr t
           \<and> map te_id (t_campaigns t) = map e_id (r_campaigns r)
           \<and> map te_targeting_level (t_campaigns t) = map e_targeting_level (r_campaigns r)
           \<and> t_branch_code t = r_branch_code r \<and> t_region t = r_region r
           \<and> t_station_code t = r_station_code r \<and> t_total t = r_total r"
  using assms
  by (auto simp add: get_active_for_station_def active_by_station_def try_same Let_def
      campaigns_with_images_ok get_active_for_station_entry_def active_by_station_entry_def
      level_same comp_def split: sum.splits)


lemma py_in_Some: "py_in (Some x) xs \<longleftrightarrow> x \<in> set xs"
  by (simp add: py_in_def)

lemma unique_of_distinct_table:
  assumes "distinct (map c_id cs)"
  shows "active_by_station_unique {} (sorted_reverse rank_key (filter P cs)) []
           = sorted_reverse rank_key (filter P cs)"
proof -
  have "distinct (map c_id (filter P cs))" using assms by (simp add: distinct_map_filter)
  then have "distinct (map c_id (sorted_reverse rank_key (filter P cs)))"
    by (rule distinct_sorted_reverse)
  then show ?thesis using unique_of_distinct [of _ "{}" "[]"] by simp
qed

lemma id_in_filter:
  assumes "distinct (map c_id cs)" and "c \<in> set cs"
  shows "c_id c \<in> c_id ` set (filter P cs) \<longleftrightarrow> P c"
proof -
  have "inj_on c_id (set cs)" using assms(1) by (simp add: distinct_map)
  then show ?thesis using assms(2) by (auto dest: inj_onD)
qed

lemma location_found:
  assumes "branches_ok db"
  shows "station_location db st =
           Inr (case st of None \<Rightarrow> None
                 | Some s \<Rightarrow> (case find (\<lambda>b. b_id b = s_branch_id s) (branches_tbl db) of
                               None \<Rightarrow> None | Some b \<Rightarrow> Some (b_code b)),
                case st of None \<Rightarrow> None
                 | Some s \<Rightarrow> (case find (\<lambda>b. b_id b = s_branch_id s) (branches_tbl db) of
                               None \<Rightarrow> None | Some b \<Rightarrow> b_region b))"
  using assms by (simp add: station_location_def station_branch_def split: option.splits)

text \<open>The definitions unfolded to evaluate a handler on a concrete database.\<close>

lemmas eval_defs =
  active_by_station_def active_by_station_try_def get_active_for_station_def
  get_active_for_station_try_def query_station_def NUL_def query_active_campaigns_def
  query_active_images_def is_candidate_def station_location_def station_branch_def b_region_def
  get_region_by_state_def STATE_TO_REGION_def upper_def upper_char_def
  active_by_station_match_def get_active_for_station_match_def or_empty_def py_in_def
  sorted_reverse_def rank_key_def read_if_station_def active_by_station_entry_def
  active_by_station_level_def get_active_for_station_entry_def get_active_for_station_level_def
  format_image_def truthy_def mk_campaign_def scenario_db_def


section \<open>The candidate query\<close>

text \<open>
  Claim C3. When the campaign table can be read, the candidate query returns, and a
  campaign is among the candidates at time \<open>now\<close> exactly when it is a row of the table
  that is not deleted, has the stored status active, and has
  \<open>start_date \<le> now \<le> end_date\<close>, both bounds included.
\<close>

theorem candidate_iff:
  assumes "campaigns_ok db"
  shows "\<exists>cs. query_active_campaigns db now = Inr cs
           \<and> (\<forall>c. c \<in> set cs \<longleftrightarrow>
                 (c \<in> set (campaigns_tbl db) \<and> c_is_deleted c = Some False
                  \<and> c_status c = Some Active \<and> c_start_date c \<le> now \<and> now \<le> c_end_date c))"
  using assms by (auto simp add: query_active_campaigns_def is_candidate_def)

text \<open>
  At time 50 the campaign starting at 50 and the one ending at 50 are candidates; the
  one that ended at 49 and the paused one are not.
\<close>

theorem candidate_iff_witness:
  "campaigns_ok window_db
   \<and> map_sum id (map c_name) (query_active_campaigns window_db 50) = Inr [''starts'', ''ends'']"
proof -
  have ok: "campaigns_ok window_db"
    by (simp add: window_db_def scenario_db_def)
  from candidate_iff [OF ok, of 50] obtain cs where
    "query_active_campaigns window_db 50 = Inr cs" by blast
  moreover have "map_sum id (map c_name) (query_active_campaigns window_db 50)
      = Inr [''starts'', ''ends'']"
    by (simp add: query_active_campaigns_def is_candidate_def window_db_def scenario_db_def
        mk_campaign_def)
  ultimately show ?thesis using ok by simp
qed


section \<open>Ranking\<close>

text \<open>
  Claim C1. On the scenario of the specification (global A of priority 0, regional B of
  priority 5, branch campaign C of priority 3, D of priority 10 for another station, all
  candidates at time 50) both handlers answer station 001 with A, C, B: the key negates
  the priority and the sort is reversed as well, so the list is in ascending priority,
  not B, C, A.
\<close>

theorem scenario_order:
  "map_sum id (\<lambda>r. map e_name (r_campaigns r)) (active_by_station scenario_db ''001'' 50)
     = Inr [''A'', ''C'', ''B'']
   \<and> map_sum id (\<lambda>t. map te_name (t_campaigns t))
       (get_active_for_station scenario_db ''001'' None 50)
     = Inr [''A'', ''C'', ''B'']"
  by (simp add: eval_defs)

lemma match_unknown:
  "active_by_station_match None bc rg sc c \<longleftrightarrow>
     or_empty (c_branches c) = [] \<and> or_empty (c_regions c) = [] \<and> or_empty (c_stations c) = []"
  by (simp add: active_by_station_match_def Let_def)

lemma level_global:
  assumes "or_empty (c_branches c) = []" and "or_empty (c_regions c) = []"
    and "or_empty (c_stations c) = []"
  shows "active_by_station_level c = ''global''"
  using assms
  by (simp add: active_by_station_level_def truthy_def or_empty_def split: option.splits)


section \<open>Station codes shared between branches\<close>




lemma campaigns_with_images_Inr:
  assumes "campaigns_with_images db cs = Inr es" and "e \<in> set es"
  shows "\<exists>c \<in> set cs. e = get_active_for_station_entry c
            (map (format_image c)
               (sort_key i_order
                  (filter (\<lambda>i. i_campaign_id i = c_id c \<and> i_active i = Some True)
                     (images_tbl db))))"
  using assms
proof (induction cs arbitrary: es)
  case Nil
  then show ?case by simp
next
  case (Cons c cs)
  from Cons.prems(1) obtain imgs rest where
    q: "query_active_images db (c_id c) = Inr imgs"
    and r: "campaigns_with_images db cs = Inr rest"
    and es: "es = get_active_for_station_entry c (map (format_image c) imgs) # rest"
    by (auto split: sum.splits)
  have imgs: "imgs = sort_key i_order
                  (filter (\<lambda>i. i_campaign_id i = c_id c \<and> i_active i = Some True)
                     (images_tbl db))"
    using q by (simp add: query_active_images_def split: if_splits)
  show ?case
  proof (cases "e \<in> set rest")
    case True
    from Cons.IH [OF r True] show ?thesis by auto
  next
    case False
    then have "e = get_active_for_station_entry c (map (format_image c) imgs)"
      using Cons.prems(2) es by simp
    then show ?thesis using imgs by simp
  qed
qed

section \<open>The two surfaces\<close>

text \<open>
  Claim C8. For every database state, station code and time, when the image table can
  be read, the tablet handler and the dashboard handler fail in the same way or return
  the same station code, branch code, region and total and the same list of campaign ids
  with their targeting levels, in the same order.
\<close>

theorem surfaces_agree:
  assumes "images_ok db"
  shows "map_sum id
           (\<lambda>t. (t_station_code t, t_branch_code t, t_region t,
                 map (\<lambda>e. (te_id e, te_targeting_level e)) (t_campaigns t), t_total t))
           (get_active_for_station db station_code request_id now)
         = map_sum id
           (\<lambda>r. (r_station_code r, r_branch_code r, r_region r,
                 map (\<lambda>e. (e_id e, e_targeting_level e)) (r_campaigns r), r_total r))
           (active_by_station db station_code now)"
  using assms
  by (simp add: get_active_for_station_def active_by_station_def try_same Let_def
      campaigns_with_images_ok get_active_for_station_entry_def active_by_station_entry_def
      level_same comp_def split: sum.splits)

text \<open>In the scenario both handlers answer station 001 with the campaigns 1, 3, 2.\<close>

theorem surfaces_agree_witness:
  "images_ok scenario_db
   \<and> map_sum id
        (\<lambda>t. (t_station_code t, t_branch_code t, t_region t,
              map (\<lambda>e. (te_id e, te_targeting_level e)) (t_campaigns t), t_total t))
        (get_active_for_station scenario_db ''001'' None 50)
       = Inr (''001'', Some ''SP01'', Some ''Sudeste'',
              [(1, ''global''), (3, ''branch''), (2, ''regional'')], 3)
   \<and> map_sum id
        (\<lambda>r. (r_station_code r, r_branch_code r, r_region r,
              map (\<lambda>e. (e_id e, e_targeting_level e)) (r_campaigns r), r_total r))
        (active_by_station scenario_db ''001'' 50)
       = Inr (''001'', Some ''SP01'', Some ''Sudeste'',
              [(1, ''global''), (3, ''branch''), (2, ''regional'')], 3)"
proof -
  have h: "images_ok scenario_db" by (simp add: scenario_db_def)
  have d: "map_sum id
        (\<lambda>r. (r_station_code r, r_branch_code r, r_region r,
              map (\<lambda>e. (e_id e, e_targeting_level e)) (r_campaigns r), r_total r))
        (active_by_station scenario_db ''001'' 50)
       = Inr (''001'', Some ''SP01'', Some ''Sudeste'',
              [(1, ''global''), (3, ''branch''), (2, ''regional'')], 3)"
    by (simp add: eval_defs)
  show ?thesis
    using h d surfaces_agree [OF h, of "''001''" None 50] by (simp only: simp_thms)
qed

section \<open>Images on the tablet surface\<close>

text \<open>
  Claim C9, as the code has it. Every campaign of a tablet response carries exactly the
  active images of that campaign, in ascending \<open>order\<close>, and the display time exposed for
  an image is the image's own column, null when the image has no display time of its own
  (the campaign's default display time is exposed beside it, on the campaign).
\<close>

theorem tablet_images:
  assumes "get_active_for_station db station_code request_id now = Inr t"
    and "e \<in> set (t_campaigns t)"
  shows "sorted (map ie_order_index (te_images e))
         \<and> mset (map (\<lambda>i. (ie_id i, ie_campaign_id i, ie_order_index i, ie_display_time i))
                  (te_images e))
           = mset (map (\<lambda>i. (i_id i, i_campaign_id i, i_order i, i_display_time i))
                  (filter (\<lambda>i. i_campaign_id i = te_id e \<and> i_active i = Some True)
                     (images_tbl db)))"
proof -
  from assms(1) have
    "campaigns_with_images db (l_campaigns (get_active_for_station_try db station_code now))
       = Inr (t_campaigns t)"
    by (auto simp add: get_active_for_station_def Let_def split: sum.splits)
  from campaigns_with_images_Inr [OF this assms(2)] obtain c where
    e: "e = get_active_for_station_entry c
            (map (format_image c)
               (sort_key i_order
                  (filter (\<lambda>i. i_campaign_id i = c_id c \<and> i_active i = Some True)
                     (images_tbl db))))"
    by blast
  let ?imgs = "filter (\<lambda>i. i_campaign_id i = c_id c \<and> i_active i = Some True) (images_tbl db)"
  have id: "te_id e = c_id c" and im: "te_images e = map (format_image c) (sort_key i_order ?imgs)"
    by (simp_all add: e get_active_for_station_entry_def)
  have o: "map ie_order_index (te_images e) = map i_order (sort_key i_order ?imgs)"
    by (simp add: im format_image_def comp_def)
  have s: "sorted (map ie_order_index (te_images e))"
    unfolding o by simp
  have "map (\<lambda>i. (ie_id i, ie_campaign_id i, ie_order_index i, ie_display_time i)) (te_images e)
          = map (\<lambda>i. (i_id i, c_id c, i_order i, i_display_time i)) (sort_key i_order ?imgs)"
    by (simp add: im format_image_def comp_def)
  also have "\<dots> = map (\<lambda>i. (i_id i, i_campaign_id i, i_order i, i_display_time i))
                    (sort_key i_order ?imgs)"
    by (rule map_cong) simp_all
  finally have "mset (map (\<lambda>i. (ie_id i, ie_campaign_id i, ie_order_index i, ie_display_time i))
                  (te_images e))
           = mset (map (\<lambda>i. (i_id i, i_campaign_id i, i_order i, i_display_time i)) ?imgs)"
    by simp
  with s id show ?thesis by simp
qed

text \<open>
  The campaign has a default display time of 5000; image 10 has no display time of its
  own and is exposed with a null display time, after image 11 of lower \<open>order\<close>.
\<close>

theorem tablet_display_time_null:
  "map_sum id
     (\<lambda>t. map (\<lambda>e. (te_default_display_time e,
                     map (\<lambda>i. (ie_id i, ie_order_index i, ie_display_time i)) (te_images e)))
             (t_campaigns t))
     (get_active_for_station images_db ''001'' None 50)
   = Inr [(Some 5000, [(11, 1, Some 3000), (10, 2, None)])]"
  by (simp add: eval_defs images_db_def)

text \<open>
  On the same database the response has a campaign, and its images are in ascending
  \<open>order\<close>: 1, 2.
\<close>

theorem tablet_images_witness:
  "\<exists>t e. get_active_for_station images_db ''001'' None 50 = Inr t \<and> e \<in> set (t_campaigns t)
      \<and> sorted (map ie_order_index (te_images e))
      \<and> map (map ie_order_index \<circ> te_images) (t_campaigns t) = [[1, 2]]"
proof -
  have "\<exists>t. get_active_for_station images_db ''001'' None 50 = Inr t
          \<and> map (map ie_order_index \<circ> te_images) (t_campaigns t) = [[1, 2]]"
    by (simp add: eval_defs images_db_def)
  then obtain t where t: "get_active_for_station images_db ''001'' None 50 = Inr t"
    and o: "map (map ie_order_index \<circ> te_images) (t_campaigns t) = [[1, 2]]"
    by (elim exE conjE) (rule that)
  from o have ne: "t_campaigns t \<noteq> []" by auto
  define e where "e = hd (t_campaigns t)"
  have m: "e \<in> set (t_campaigns t)" using ne by (simp add: e_def)
  from tablet_images [OF t m] have s: "sorted (map ie_order_index (te_images e))"
    by (rule conjunct1)
  from t m s o show ?thesis by (intro exI [of _ t] exI [of _ e] conjI)
qed


section \<open>Classification\<close>

lemma match_rules:
  "(let branches = or_empty (c_branches campaign);
        regions = or_empty (c_regions campaign);
        stations = or_empty (c_stations campaign);
        included = active_by_station_match station branch_code region station_code campaign
    in (branches = [] \<and> regions = [] \<and> stations = [] \<longrightarrow> included)
       \<and> (regions \<noteq> [] \<and> branches = [] \<and> stations = [] \<longrightarrow>
            (included \<longleftrightarrow> station \<noteq> None \<and> py_in region regions))
       \<and> (branches \<noteq> [] \<and> stations = [] \<longrightarrow>
            (included \<longleftrightarrow> station \<noteq> None \<and> py_in branch_code branches))
       \<and> (branches \<noteq> [] \<and> stations \<noteq> [] \<longrightarrow>
            (included \<longleftrightarrow> station \<noteq> None \<and> py_in branch_code branches
                          \<and> station_code \<in> set stations))
       \<and> (branches = [] \<and> stations \<noteq> [] \<longrightarrow> \<not> included))"
  by (simp add: Let_def active_by_station_match_def py_in_def)

lemma in_response_iff:
  assumes "query_station db station_code = Inr st" and "campaigns_ok db"
    and "station_location db st = Inr (bc, rg)"
    and "distinct (map c_id (campaigns_tbl db))" and "campaign \<in> set (campaigns_tbl db)"
  shows "\<exists>r. active_by_station db station_code now = Inr r
           \<and> r_branch_code r = bc \<and> r_region r = rg
           \<and> (c_id campaign \<in> e_id ` set (r_campaigns r) \<longleftrightarrow>
                is_candidate now campaign
                \<and> active_by_station_match st bc rg station_code campaign)"
proof -
  define cs where "cs = filter (is_candidate now) (campaigns_tbl db)"
  define P where "P = active_by_station_match st bc rg station_code"
  define r where "r = \<lparr>r_station_code = station_code, r_branch_code = bc, r_region = rg,
      r_campaigns = map active_by_station_entry (sorted_reverse rank_key (filter P cs)),
      r_total = length (sorted_reverse rank_key (filter P cs))\<rparr>"
  have qc: "query_active_campaigns db now = Inr cs"
    using assms(2) by (simp add: query_active_campaigns_def cs_def)
  have dcs: "distinct (map c_id cs)"
    using assms(4) by (simp add: cs_def distinct_map_filter)
  have res: "active_by_station db station_code now = Inr r"
    using handler_resolved [OF assms(1) qc assms(3)] unique_of_distinct_table [OF dcs]
    by (simp add: r_def P_def)
  have ids: "e_id ` set (r_campaigns r)
               = c_id ` set (filter (\<lambda>c. is_candidate now c \<and> P c) (campaigns_tbl db))"
    by (auto simp add: r_def set_sorted_reverse cs_def active_by_station_entry_def image_iff)
  have mem: "c_id campaign \<in> e_id ` set (r_campaigns r) \<longleftrightarrow>
               is_candidate now campaign \<and> P campaign"
    by (simp only: ids id_in_filter [OF assms(4) assms(5)])
  have b: "r_branch_code r = bc" and g: "r_region r = rg"
    by (simp_all add: r_def)
  from res b g mem show ?thesis
    unfolding P_def by (intro exI [of _ r] conjI)
qed

text \<open>
  Claim C2. Take a request whose station lookup returned (a station row or none), with
  readable branch and campaign tables and unique campaign ids, and let \<open>branch_code\<close> and
  \<open>region\<close> be those of the branch of the station found (null without a station or
  branch). The dashboard handler returns a response with that branch code and region,
  and a campaign of the table is in it according to exactly one rule: with the three
  arrays empty, iff it is a candidate; with regions only, iff it is a candidate and
  \<open>region\<close> is among them; with branches and no stations, iff it is a candidate and
  \<open>branch_code\<close> is among them; with branches and stations, iff it is a candidate,
  \<open>branch_code\<close> is among the branches and the requested code among the stations; with
  stations and no branches (whatever the regions), never. Nothing is raised. With
  readable images the tablet handler returns the same campaign ids.
\<close>

theorem classification_in_response:
  assumes "query_station db station_code = Inr st" and "branches_ok db" and "campaigns_ok db"
    and "distinct (map c_id (campaigns_tbl db))" and "campaign \<in> set (campaigns_tbl db)"
  shows "\<exists>r. active_by_station db station_code now = Inr r
     \<and> (let branches = or_empty (c_branches campaign);
             regions = or_empty (c_regions campaign);
             stations = or_empty (c_stations campaign);
             branch = (case st of None \<Rightarrow> None
                       | Some s \<Rightarrow> find (\<lambda>b. b_id b = s_branch_id s) (branches_tbl db));
             branch_code = (case branch of None \<Rightarrow> None | Some b \<Rightarrow> Some (b_code b));
             region = (case branch of None \<Rightarrow> None | Some b \<Rightarrow> b_region b);
             shown = (c_id campaign \<in> e_id ` set (r_campaigns r))
         in r_branch_code r = branch_code \<and> r_region r = region
            \<and> (branches = [] \<and> regions = [] \<and> stations = [] \<longrightarrow>
                 (shown \<longleftrightarrow> is_candidate now campaign))
            \<and> (regions \<noteq> [] \<and> branches = [] \<and> stations = [] \<longrightarrow>
                 (shown \<longleftrightarrow> is_candidate now campaign \<and> py_in region regions))
            \<and> (branches \<noteq> [] \<and> stations = [] \<longrightarrow>
                 (shown \<longleftrightarrow> is_candidate now campaign \<and> py_in branch_code branches))
            \<and> (branches \<noteq> [] \<and> stations \<noteq> [] \<longrightarrow>
                 (shown \<longleftrightarrow> is_candidate now campaign \<and> py_in branch_code branches
                            \<and> station_code \<in> set stations))
            \<and> (branches = [] \<and> stations \<noteq> [] \<longrightarrow> \<not> shown))
     \<and> (images_ok db \<longrightarrow>
          (\<exists>t. get_active_for_station db station_code request_id now = Inr t
             \<and> map te_id (t_campaigns t) = map e_id (r_campaigns r)))"
proof -
  define branch where "branch = (case st of None \<Rightarrow> None
                       | Some s \<Rightarrow> find (\<lambda>b. b_id b = s_branch_id s) (branches_tbl db))"
  define bc where "bc = (case branch of None \<Rightarrow> None | Some b \<Rightarrow> Some (b_code b))"
  define rg where "rg = (case branch of None \<Rightarrow> None | Some b \<Rightarrow> b_region b)"
  have loc: "station_location db st = Inr (bc, rg)"
    using location_found [OF assms(2), of st]
    by (simp add: bc_def rg_def branch_def split: option.splits)
  have un: "st = None \<Longrightarrow> bc = None \<and> rg = None"
    by (simp add: bc_def rg_def branch_def)
  from in_response_iff [OF assms(1) assms(3) loc assms(4) assms(5), of now]
  obtain r where res: "active_by_station db station_code now = Inr r"
    and b: "r_branch_code r = bc" and g: "r_region r = rg"
    and mem: "c_id campaign \<in> e_id ` set (r_campaigns r) \<longleftrightarrow>
                is_candidate now campaign
                \<and> active_by_station_match st bc rg station_code campaign"
    by (elim exE conjE) (rule that)
  have rules: "(let branches = or_empty (c_branches campaign);
             regions = or_empty (c_regions campaign);
             stations = or_empty (c_stations campaign);
             shown = (c_id campaign \<in> e_id ` set (r_campaigns r))
         in (branches = [] \<and> regions = [] \<and> stations = [] \<longrightarrow>
                 (shown \<longleftrightarrow> is_candidate now campaign))
            \<and> (regions \<noteq> [] \<and> branches = [] \<and> stations = [] \<longrightarrow>
                 (shown \<longleftrightarrow> is_candidate now campaign \<and> py_in rg regions))
            \<and> (branches \<noteq> [] \<and> stations = [] \<longrightarrow>
                 (shown \<longleftrightarrow> is_candidate now campaign \<and> py_in bc branches))
            \<and> (branches \<noteq> [] \<and> stations \<noteq> [] \<longrightarrow>
                 (shown \<longleftrightarrow> is_candidate now campaign \<and> py_in bc branches
                            \<and> station_code \<in> set stations))
            \<and> (branches = [] \<and> stations \<noteq> [] \<longrightarrow> \<not> shown))"
  proof (cases st)
    case None
    then have "bc = None" "rg = None" using un by simp_all
    then show ?thesis
      using match_rules [of campaign st bc rg station_code] None
      by (simp add: Let_def mem py_in_def)
  next
    case (Some s)
    then show ?thesis
      using match_rules [of campaign st bc rg station_code]
      by (simp add: Let_def mem)
  qed
  have tab: "images_ok db \<longrightarrow>
          (\<exists>t. get_active_for_station db station_code request_id now = Inr t
             \<and> map te_id (t_campaigns t) = map e_id (r_campaigns r))"
  proof
    assume "images_ok db"
    from tablet_follows [OF this res, of request_id] show
      "\<exists>t. get_active_for_station db station_code request_id now = Inr t
             \<and> map te_id (t_campaigns t) = map e_id (r_campaigns r)"
      by (elim exE conjE) (rule exI, rule conjI)
  qed
  have body: "(let branches = or_empty (c_branches campaign);
             regions = or_empty (c_regions campaign);
             stations = or_empty (c_stations campaign);
             branch = (case st of None \<Rightarrow> None
                       | Some s \<Rightarrow> find (\<lambda>b. b_id b = s_branch_id s) (branches_tbl db));
             branch_code = (case branch of None \<Rightarrow> None | Some b \<Rightarrow> Some (b_code b));
             region = (case branch of None \<Rightarrow> None | Some b \<Rightarrow> b_region b);
             shown = (c_id campaign \<in> e_id ` set (r_campaigns r))
         in r_branch_code r = branch_code \<and> r_region r = region
            \<and> (branches = [] \<and> regions = [] \<and> stations = [] \<longrightarrow>
                 (shown \<longleftrightarrow> is_candidate now campaign))
            \<and> (regions \<noteq> [] \<and> branches = [] \<and> stations = [] \<longrightarrow>
                 (shown \<longleftrightarrow> is_candidate now campaign \<and> py_in region regions))
            \<and> (branches \<noteq> [] \<and> stations = [] \<longrightarrow>
                 (shown \<longleftrightarrow> is_candidate now campaign \<and> py_in branch_code branches))
            \<and> (branches \<noteq> [] \<and> stations \<noteq> [] \<longrightarrow>
                 (shown \<longleftrightarrow> is_candidate now campaign \<and> py_in branch_code branches
                            \<and> station_code \<in> set stations))
            \<and> (branches = [] \<and> stations \<noteq> [] \<longrightarrow> \<not> shown))"
    using rules b g unfolding Let_def bc_def rg_def branch_def by (intro conjI) simp_all
  from res body tab show ?thesis by (intro exI [of _ r] conjI)
qed


text \<open>
  Station 001 of branch SP01 (region Sudeste) at time 50, with the six campaigns A
  (global), B (region Sudeste), F (region and station, no branch), C (branch SP01), D
  (branch SP01, station 002) and E (branch SP01, station 001), all candidates: the
  response carries A, C, B and E; D and F are left out.
\<close>

theorem classification_in_response_witness:
  "query_station mixed_db ''001''
     = Inr (Some \<lparr>s_id = 1, s_code = ''001'', s_name = ''Posto'', s_branch_id = 1,
                  s_is_active = Some True\<rparr>)
   \<and> branches_ok mixed_db \<and> campaigns_ok mixed_db
   \<and> distinct (map c_id (campaigns_tbl mixed_db))
   \<and> map_sum id (map c_name) (query_active_campaigns mixed_db 50)
       = Inr [''A'', ''B'', ''F'', ''C'', ''D'', ''E'']
   \<and> map_sum id (\<lambda>r. (r_branch_code r, r_region r, map e_name (r_campaigns r)))
        (active_by_station mixed_db ''001'' 50)
       = Inr (Some ''SP01'', Some ''Sudeste'', [''A'', ''C'', ''B'', ''E''])"
proof -
  let ?st = "Some \<lparr>s_id = 1, s_code = ''001'', s_name = ''Posto'', s_branch_id = 1,
                  s_is_active = Some True\<rparr>"
  have qs: "query_station mixed_db ''001'' = Inr ?st"
    by (simp add: query_station_def NUL_def mixed_db_def scenario_db_def)
  have ok: "branches_ok mixed_db" "campaigns_ok mixed_db"
    "distinct (map c_id (campaigns_tbl mixed_db))"
    by (simp_all add: mixed_db_def scenario_db_def mk_campaign_def)
  have m: "mk_campaign 1 ''A'' [] [] [] 0 \<in> set (campaigns_tbl mixed_db)"
    "mk_campaign 2 ''B'' [] [''Sudeste''] [] 5 \<in> set (campaigns_tbl mixed_db)"
    "mk_campaign 6 ''F'' [] [''Sudeste''] [''001''] 1 \<in> set (campaigns_tbl mixed_db)"
    "mk_campaign 3 ''C'' [''SP01''] [] [] 3 \<in> set (campaigns_tbl mixed_db)"
    "mk_campaign 4 ''D'' [''SP01''] [] [''002''] 10 \<in> set (campaigns_tbl mixed_db)"
    "mk_campaign 5 ''E'' [''SP01''] [] [''001''] 7 \<in> set (campaigns_tbl mixed_db)"
    by (simp_all add: mixed_db_def scenario_db_def)
  have cand: "map_sum id (map c_name) (query_active_campaigns mixed_db 50)
       = Inr [''A'', ''B'', ''F'', ''C'', ''D'', ''E'']"
    by (simp add: query_active_campaigns_def is_candidate_def mixed_db_def scenario_db_def
        mk_campaign_def)
  have ev: "map_sum id (\<lambda>r. (r_branch_code r, r_region r, map e_name (r_campaigns r)))
        (active_by_station mixed_db ''001'' 50)
       = Inr (Some ''SP01'', Some ''Sudeste'', [''A'', ''C'', ''B'', ''E''])"
    by (simp add: eval_defs mixed_db_def)
  show ?thesis
    using qs ok cand ev
      classification_in_response [OF qs ok m(1), of 50 None]
      classification_in_response [OF qs ok m(2), of 50 None]
      classification_in_response [OF qs ok m(3), of 50 None]
      classification_in_response [OF qs ok m(4), of 50 None]
      classification_in_response [OF qs ok m(5), of 50 None]
      classification_in_response [OF qs ok m(6), of 50 None]
    by (simp only: simp_thms)
qed


section \<open>Station campaigns\<close>

text \<open>
  Claim C4, as the code has it. Take a request whose station lookup returned, with
  readable branch and campaign tables and unique campaign ids. A campaign of the table
  with both branches and stations non-empty is in the dashboard response exactly when it
  is a candidate, the lookup returned a station row, the code of the branch of that row
  is among the campaign's branches and the requested station code, as given, is among
  its stations. The row is the one the lookup returned, the first active row with the
  requested code: the request names no branch. With readable images the tablet response
  lists the same campaign ids.
\<close>

theorem station_requires_branch:
  assumes "query_station db station_code = Inr st" and "branches_ok db" and "campaigns_ok db"
    and "distinct (map c_id (campaigns_tbl db))"
    and "campaign \<in> set (campaigns_tbl db)"
    and "or_empty (c_branches campaign) \<noteq> []" and "or_empty (c_stations campaign) \<noteq> []"
  shows "\<exists>r. active_by_station db station_code now = Inr r
           \<and> (c_id campaign \<in> e_id ` set (r_campaigns r) \<longleftrightarrow>
                is_candidate now campaign
                \<and> (\<exists>s b. st = Some s
                         \<and> find (\<lambda>b. b_id b = s_branch_id s) (branches_tbl db) = Some b
                         \<and> b_code b \<in> set (or_empty (c_branches campaign))
                         \<and> station_code \<in> set (or_empty (c_stations campaign))))
           \<and> (images_ok db \<longrightarrow>
                (\<exists>t. get_active_for_station db station_code request_id now = Inr t
                   \<and> map te_id (t_campaigns t) = map e_id (r_campaigns r)))"
proof -
  obtain bc rg where loc: "station_location db st = Inr (bc, rg)"
    using location_found [OF assms(2)] by blast
  from in_response_iff [OF assms(1) assms(3) loc assms(4) assms(5), of now]
  obtain r where res: "active_by_station db station_code now = Inr r"
    and mem: "c_id campaign \<in> e_id ` set (r_campaigns r) \<longleftrightarrow>
                is_candidate now campaign
                \<and> active_by_station_match st bc rg station_code campaign"
    by (elim exE conjE) (rule that)
  have Pc: "active_by_station_match st bc rg station_code campaign \<longleftrightarrow>
              st \<noteq> None \<and> py_in bc (or_empty (c_branches campaign))
              \<and> station_code \<in> set (or_empty (c_stations campaign))"
    using assms(6,7) by (auto simp add: active_by_station_match_def Let_def py_in_Some)
  have bcs: "st \<noteq> None \<and> py_in bc (or_empty (c_branches campaign))
              \<and> station_code \<in> set (or_empty (c_stations campaign)) \<longleftrightarrow>
     (\<exists>s b. st = Some s \<and> find (\<lambda>b. b_id b = s_branch_id s) (branches_tbl db) = Some b
          \<and> b_code b \<in> set (or_empty (c_branches campaign))
          \<and> station_code \<in> set (or_empty (c_stations campaign)))"
  proof (cases st)
    case None
    then show ?thesis by simp
  next
    case (Some s)
    show ?thesis
    proof (cases "find (\<lambda>b. b_id b = s_branch_id s) (branches_tbl db)")
      case None
      then have "bc = None" using loc Some assms(2)
        by (simp add: station_location_def station_branch_def)
      then show ?thesis using Some None by (simp add: py_in_def)
    next
      case (Some b)
      then have "bc = Some (b_code b)" using loc \<open>st = Some s\<close> assms(2)
        by (simp add: station_location_def station_branch_def)
      then show ?thesis using \<open>st = Some s\<close> Some by (simp add: py_in_def)
    qed
  qed
  have iff: "c_id campaign \<in> e_id ` set (r_campaigns r) \<longleftrightarrow>
                is_candidate now campaign
                \<and> (\<exists>s b. st = Some s
                         \<and> find (\<lambda>b. b_id b = s_branch_id s) (branches_tbl db) = Some b
                         \<and> b_code b \<in> set (or_empty (c_branches campaign))
                         \<and> station_code \<in> set (or_empty (c_stations campaign)))"
    by (simp only: mem Pc bcs)
  have tab: "images_ok db \<longrightarrow>
                (\<exists>t. get_active_for_station db station_code request_id now = Inr t
                   \<and> map te_id (t_campaigns t) = map e_id (r_campaigns r))"
  proof
    assume "images_ok db"
    from tablet_follows [OF this res, of request_id] show
      "\<exists>t. get_active_for_station db station_code request_id now = Inr t
                   \<and> map te_id (t_campaigns t) = map e_id (r_campaigns r)"
      by (elim exE conjE) (rule exI, rule conjI)
  qed
  from res iff tab show ?thesis by (intro exI [of _ r] conjI)
qed

text \<open>
  The only station 001 belongs to branch 020202 and the campaign targets station 001 of
  branch 010101: the lookup returns that row, the campaign is a candidate at time 50 and
  is in neither response.
\<close>

theorem station_requires_branch_witness:
  "query_station wrong_branch_db ''001''
     = Inr (Some \<lparr>s_id = 1, s_code = ''001'', s_name = ''Posto'', s_branch_id = 2,
                  s_is_active = Some True\<rparr>)
   \<and> branches_ok wrong_branch_db \<and> campaigns_ok wrong_branch_db
   \<and> distinct (map c_id (campaigns_tbl wrong_branch_db))
   \<and> mk_campaign 1 ''E'' [''010101''] [] [''001''] 0 \<in> set (campaigns_tbl wrong_branch_db)
   \<and> is_candidate 50 (mk_campaign 1 ''E'' [''010101''] [] [''001''] 0)
   \<and> map_sum id (\<lambda>r. (r_branch_code r, map e_id (r_campaigns r)))
        (active_by_station wrong_branch_db ''001'' 50) = Inr (Some ''020202'', [])
   \<and> map_sum id (\<lambda>t. (t_branch_code t, map te_id (t_campaigns t)))
        (get_active_for_station wrong_branch_db ''001'' None 50) = Inr (Some ''020202'', [])"
proof -
  have h: "query_station wrong_branch_db ''001''
     = Inr (Some \<lparr>s_id = 1, s_code = ''001'', s_name = ''Posto'', s_branch_id = 2,
                  s_is_active = Some True\<rparr>)"
    "branches_ok wrong_branch_db" "campaigns_ok wrong_branch_db"
    "distinct (map c_id (campaigns_tbl wrong_branch_db))"
    "mk_campaign 1 ''E'' [''010101''] [] [''001''] 0 \<in> set (campaigns_tbl wrong_branch_db)"
    "or_empty (c_branches (mk_campaign 1 ''E'' [''010101''] [] [''001''] 0)) \<noteq> []"
    "or_empty (c_stations (mk_campaign 1 ''E'' [''010101''] [] [''001''] 0)) \<noteq> []"
    by (simp_all add: query_station_def NUL_def wrong_branch_db_def scenario_db_def
        mk_campaign_def or_empty_def)
  have c: "is_candidate 50 (mk_campaign 1 ''E'' [''010101''] [] [''001''] 0)"
    by (simp add: is_candidate_def mk_campaign_def)
  have d: "map_sum id (\<lambda>r. (r_branch_code r, map e_id (r_campaigns r)))
        (active_by_station wrong_branch_db ''001'' 50) = Inr (Some ''020202'', [])"
    by (simp add: eval_defs wrong_branch_db_def)
  have t: "map_sum id (\<lambda>t. (t_branch_code t, map te_id (t_campaigns t)))
        (get_active_for_station wrong_branch_db ''001'' None 50) = Inr (Some ''020202'', [])"
    by (simp add: eval_defs wrong_branch_db_def)
  show ?thesis
    using h c d t station_requires_branch [OF h, of 50 None] by (simp only: simp_thms)
qed

text \<open>
  The claim as stated fails when the code is shared. Station 001 of branch 020202 is an
  active row, and so is a station 001 of branch 010101 that the table hands back first:
  the request for 001 is answered with branch 010101 and with the campaign for station
  001 of branch 010101.
\<close>

theorem shared_code_other_branch:
  "stations_tbl shared_wrong_branch_db ! 1
     = \<lparr>s_id = 2, s_code = ''001'', s_name = ''Posto 2'', s_branch_id = 2,
        s_is_active = Some True\<rparr>
   \<and> branches_tbl shared_wrong_branch_db ! 1
     = \<lparr>b_id = 2, b_code = ''020202'', b_state = ''SP'', b_is_active = Some True\<rparr>
   \<and> map c_name (campaigns_tbl shared_wrong_branch_db) = [''E'']
   \<and> map c_branches (campaigns_tbl shared_wrong_branch_db) = [Some [''010101'']]
   \<and> map c_stations (campaigns_tbl shared_wrong_branch_db) = [Some [''001'']]
   \<and> map_sum id (\<lambda>r. (r_branch_code r, map e_name (r_campaigns r)))
        (active_by_station shared_wrong_branch_db ''001'' 50) = Inr (Some ''010101'', [''E''])
   \<and> map_sum id (\<lambda>t. (t_branch_code t, map te_name (t_campaigns t)))
        (get_active_for_station shared_wrong_branch_db ''001'' None 50)
       = Inr (Some ''010101'', [''E''])"
  by (simp add: eval_defs shared_wrong_branch_db_def)



section \<open>Unknown stations\<close>

text \<open>
  When the station lookup returns no row and the campaign table can be read, the
  dashboard handler returns a response whose branch code and region are null and whose
  campaigns are, each once, exactly the candidates with the three targeting arrays
  empty, all of them labelled global. With readable images the tablet handler returns
  the same campaigns, also with null branch code and region.
\<close>

lemma unknown_station_global_only:
  assumes "query_station db station_code = Inr None" and "campaigns_ok db"
  shows "\<exists>r. active_by_station db station_code now = Inr r
           \<and> r_branch_code r = None \<and> r_region r = None
           \<and> e_id ` set (r_campaigns r) =
               c_id ` {c \<in> set (campaigns_tbl db). is_candidate now c
                         \<and> or_empty (c_branches c) = [] \<and> or_empty (c_regions c) = []
                         \<and> or_empty (c_stations c) = []}
           \<and> distinct (map e_id (r_campaigns r))
           \<and> (\<forall>e \<in> set (r_campaigns r). e_targeting_level e = ''global'')
           \<and> (images_ok db \<longrightarrow>
                (\<exists>t. get_active_for_station db station_code request_id now = Inr t
                   \<and> map te_id (t_campaigns t) = map e_id (r_campaigns r)
                   \<and> map te_targeting_level (t_campaigns t)
                       = map e_targeting_level (r_campaigns r)
                   \<and> t_branch_code t = None \<and> t_region t = None))"
proof -
  define cs where "cs = filter (is_candidate now) (campaigns_tbl db)"
  define P where "P = active_by_station_match None None None station_code"
  define res where "res = active_by_station_unique {} (sorted_reverse rank_key (filter P cs)) []"
  define r where "r = \<lparr>r_station_code = station_code, r_branch_code = None, r_region = None,
      r_campaigns = map active_by_station_entry res, r_total = length res\<rparr>"
  note qs = assms(1)
  have qc: "query_active_campaigns db now = Inr cs"
    using assms(2) by (simp add: query_active_campaigns_def cs_def)
  have ret: "active_by_station db station_code now = Inr r"
    using handler_resolved [OF qs qc location_none] by (simp add: r_def res_def P_def)
  have eid: "map e_id (r_campaigns r) = map c_id res"
    by (simp add: r_def active_by_station_entry_def comp_def)
  have "c_id ` set res = c_id ` set (filter P cs)"
    using unique_ids [of "{}" "sorted_reverse rank_key (filter P cs)" "[]"]
    by (simp add: res_def set_sorted_reverse)
  moreover have "set (filter P cs) = {c \<in> set (campaigns_tbl db). is_candidate now c
                         \<and> or_empty (c_branches c) = [] \<and> or_empty (c_regions c) = []
                         \<and> or_empty (c_stations c) = []}"
    by (auto simp add: cs_def P_def match_unknown)
  moreover have "e_id ` set (r_campaigns r) = c_id ` set res"
    using eid by (metis list.set_map)
  ultimately have ids: "e_id ` set (r_campaigns r) =
               c_id ` {c \<in> set (campaigns_tbl db). is_candidate now c
                         \<and> or_empty (c_branches c) = [] \<and> or_empty (c_regions c) = []
                         \<and> or_empty (c_stations c) = []}"
    by simp
  have "distinct (map c_id res)"
    unfolding res_def by (rule unique_distinct) simp_all
  then have dist: "distinct (map e_id (r_campaigns r))"
    by (simp only: eid)
  have lev: "\<forall>e \<in> set (r_campaigns r). e_targeting_level e = ''global''"
  proof
    fix e assume "e \<in> set (r_campaigns r)"
    then obtain c where c: "c \<in> set res" and e: "e = active_by_station_entry c"
      by (auto simp add: r_def)
    have "set res \<subseteq> set (filter P cs)"
      using unique_subset [of "{}" "sorted_reverse rank_key (filter P cs)" "[]"]
      by (simp add: res_def set_sorted_reverse)
    then have "P c" using c by auto
    then have "active_by_station_level c = ''global''"
      by (simp add: P_def match_unknown level_global)
    then show "e_targeting_level e = ''global''"
      by (simp add: e active_by_station_entry_def)
  qed
  have tab: "images_ok db \<longrightarrow>
                (\<exists>t. get_active_for_station db station_code request_id now = Inr t
                   \<and> map te_id (t_campaigns t) = map e_id (r_campaigns r)
                   \<and> map te_targeting_level (t_campaigns t)
                       = map e_targeting_level (r_campaigns r)
                   \<and> t_branch_code t = None \<and> t_region t = None)"
  proof
    assume "images_ok db"
    from tablet_follows [OF this ret, of request_id] obtain t where
      "get_active_for_station db station_code request_id now = Inr t"
      "map te_id (t_campaigns t) = map e_id (r_campaigns r)"
      "map te_targeting_level (t_campaigns t) = map e_targeting_level (r_campaigns r)"
      "t_branch_code t = r_branch_code r" "t_region t = r_region r"
      by blast
    then show "\<exists>t. get_active_for_station db station_code request_id now = Inr t
                   \<and> map te_id (t_campaigns t) = map e_id (r_campaigns r)
                   \<and> map te_targeting_level (t_campaigns t)
                       = map e_targeting_level (r_campaigns r)
                   \<and> t_branch_code t = None \<and> t_region t = None"
      by (intro exI [of _ t]) (simp add: r_def)
  qed
  have nb: "r_branch_code r = None" and nr: "r_region r = None"
    by (simp_all add: r_def)
  from ret nb nr ids dist lev tab show ?thesis
    by (intro exI [of _ r] conjI)
qed

text \<open>
  In the scenario no station has the code \<open>does-not-exist\<close>: of the four candidates only
  the global campaign A is returned, and branch code and region are null.
\<close>

lemma unknown_station_global_only_example:
  "query_station scenario_db ''does-not-exist'' = Inr None \<and> campaigns_ok scenario_db
   \<and> map_sum id (\<lambda>r. (r_branch_code r, r_region r,
          map (\<lambda>e. (e_name e, e_targeting_level e)) (r_campaigns r)))
        (active_by_station scenario_db ''does-not-exist'' 50)
       = Inr (None, None, [(''A'', ''global'')])"
proof -
  have h: "query_station scenario_db ''does-not-exist'' = Inr None" "campaigns_ok scenario_db"
    by (simp_all add: query_station_def NUL_def scenario_db_def)
  have d: "map_sum id (\<lambda>r. (r_branch_code r, r_region r,
          map (\<lambda>e. (e_name e, e_targeting_level e)) (r_campaigns r)))
        (active_by_station scenario_db ''does-not-exist'' 50)
       = Inr (None, None, [(''A'', ''global'')])"
    by (simp add: eval_defs)
  show ?thesis
    using h d unknown_station_global_only [OF h, of 50 None] by (simp only: simp_thms)
qed

text \<open>
  Claim C7. For a station code with no active matching station the handlers are meant
  not to fail, and they do not when the lookup returns no row. But the station code of
  one NUL character matches no station either, and there the lookup raises inside the
  \<^verbatim>\<open>try\<close> block before \<^verbatim>\<open>station\<close> is assigned; the handler of the exception only
  empties the campaign list, and the response expression \<^verbatim>\<open>branch_code if station else None\<close>
  then reads the unbound \<^verbatim>\<open>station\<close>: both handlers fail with an
  \<^verbatim>\<open>UnboundLocalError\<close> on the scenario database, whose tables can all be read and whose
  global campaign A is a candidate.
\<close>

theorem nul_station_code_fails:
  "stations_ok scenario_db \<and> branches_ok scenario_db \<and> campaigns_ok scenario_db
   \<and> images_ok scenario_db
   \<and> find (\<lambda>s. s_code s = [NUL] \<and> s_is_active s = Some True) (stations_tbl scenario_db) = None
   \<and> query_station scenario_db [NUL] = Inl ValueError
   \<and> active_by_station scenario_db [NUL] 50 = Inl UnboundLocalError
   \<and> get_active_for_station scenario_db [NUL] None 50 = Inl UnboundLocalError"
  by (simp add: eval_defs)


section \<open>Malformed campaigns and exceptions\<close>

lemma try_raised:
  assumes "(\<exists>e. query_station db station_code = Inl e) \<or> \<not> campaigns_ok db
           \<or> (\<not> branches_ok db \<and> (\<exists>s. query_station db station_code = Inr (Some s)))"
  shows "l_campaigns (active_by_station_try db station_code now) = []"
  using assms
  by (auto simp add: active_by_station_try_def query_active_campaigns_def
      station_location_def station_branch_def split: sum.splits option.splits)

lemma match_malformed:
  assumes "or_empty (c_branches bad) = []" and "or_empty (c_stations bad) \<noteq> []"
  shows "\<not> active_by_station_match st bc rg station_code bad"
  using assms by (simp add: active_by_station_match_def Let_def)

lemma try_without_row:
  assumes "or_empty (c_branches bad) = []" and "or_empty (c_stations bad) \<noteq> []"
  shows "active_by_station_try (db\<lparr>campaigns_tbl := pre @ bad # post\<rparr>) station_code now
           = active_by_station_try (db\<lparr>campaigns_tbl := pre @ post\<rparr>) station_code now"
proof -
  let ?db1 = "db\<lparr>campaigns_tbl := pre @ bad # post\<rparr>"
  let ?db2 = "db\<lparr>campaigns_tbl := pre @ post\<rparr>"
  have qs: "query_station ?db1 station_code = query_station ?db2 station_code"
    by (simp add: query_station_def)
  have sb: "station_branch ?db1 s = station_branch ?db2 s" for s
    by (simp add: station_branch_def)
  have sl: "station_location ?db1 st = station_location ?db2 st" for st
    by (cases st) (simp_all add: station_location_def sb)
  show ?thesis
  proof (cases "query_station ?db2 station_code")
    case (Inl e)
    then show ?thesis by (simp add: active_by_station_try_def qs)
  next
    case (Inr st)
    show ?thesis
    proof (cases "campaigns_ok db")
      case False
      then show ?thesis
        using Inr by (simp add: active_by_station_try_def qs query_active_campaigns_def)
    next
      case True
      show ?thesis
      proof (cases "station_location ?db2 st")
        case (Inl e)
        then show ?thesis
          using Inr True
          by (simp add: active_by_station_try_def qs sl query_active_campaigns_def)
      next
        case loc: (Inr p)
        obtain bc rg where p: "p = (bc, rg)" by (cases p)
        show ?thesis
          using Inr True loc p
          by (simp add: active_by_station_try_def qs sl query_active_campaigns_def
              active_by_station_loop_filter match_malformed [OF assms])
      qed
    qed
  qed
qed

lemma campaigns_with_images_rows:
  "campaigns_with_images (db\<lparr>campaigns_tbl := rows\<rparr>) cs = campaigns_with_images db cs"
  by (induction cs) (simp_all add: query_active_images_def)

text \<open>
  Claim C5, as the code has it. Classifying a campaign raises nothing. A campaign with
  malformed targeting arrays (stations without branches) is left out alone: wherever its
  row stands in the campaign table, both handlers answer as they do on the table without
  that row, so every other included campaign still appears. A failing candidate query,
  however, is neither the only failure that empties the result nor one that reaches the
  caller: the station lookup, the candidate query and the branch load run in one
  \<^verbatim>\<open>try\<close> block whose handler sets the campaign list to the empty list, so after any of
  these failures every response returned has no campaigns and total 0; and when the
  candidate query fails and the lookup returned no station, a response is returned, with
  null branch code and region.
\<close>

theorem malformed_dropped_failures_caught:
  "(or_empty (c_branches bad) = [] \<and> or_empty (c_stations bad) \<noteq> [] \<longrightarrow>
       active_by_station (db\<lparr>campaigns_tbl := pre @ bad # post\<rparr>) station_code now
         = active_by_station (db\<lparr>campaigns_tbl := pre @ post\<rparr>) station_code now
       \<and> get_active_for_station (db\<lparr>campaigns_tbl := pre @ bad # post\<rparr>) station_code
            request_id now
         = get_active_for_station (db\<lparr>campaigns_tbl := pre @ post\<rparr>) station_code
            request_id now)
   \<and> ((\<exists>e. query_station db station_code = Inl e) \<or> \<not> campaigns_ok db
        \<or> (\<not> branches_ok db \<and> (\<exists>s. query_station db station_code = Inr (Some s))) \<longrightarrow>
         (\<forall>r. active_by_station db station_code now = Inr r \<longrightarrow>
             r_campaigns r = [] \<and> r_total r = 0)
         \<and> (\<forall>t. get_active_for_station db station_code request_id now = Inr t \<longrightarrow>
             t_campaigns t = [] \<and> t_total t = 0))
   \<and> (\<not> campaigns_ok db \<and> query_station db station_code = Inr None \<longrightarrow>
         (\<exists>r. active_by_station db station_code now = Inr r
             \<and> r_branch_code r = None \<and> r_region r = None \<and> r_campaigns r = [])
         \<and> (\<exists>t. get_active_for_station db station_code request_id now = Inr t
             \<and> t_branch_code t = None \<and> t_region t = None \<and> t_campaigns t = []))"
proof (intro conjI impI)
  assume a: "or_empty (c_branches bad) = [] \<and> or_empty (c_stations bad) \<noteq> []"
  then have b: "or_empty (c_branches bad) = []" and c: "or_empty (c_stations bad) \<noteq> []"
    by simp_all
  show "active_by_station (db\<lparr>campaigns_tbl := pre @ bad # post\<rparr>) station_code now
         = active_by_station (db\<lparr>campaigns_tbl := pre @ post\<rparr>) station_code now"
    by (simp add: active_by_station_def try_without_row [OF b c])
  have "campaigns_with_images (db\<lparr>campaigns_tbl := pre @ bad # post\<rparr>) cs
          = campaigns_with_images (db\<lparr>campaigns_tbl := pre @ post\<rparr>) cs" for cs
    by (simp only: campaigns_with_images_rows)
  then show "get_active_for_station (db\<lparr>campaigns_tbl := pre @ bad # post\<rparr>) station_code
            request_id now
         = get_active_for_station (db\<lparr>campaigns_tbl := pre @ post\<rparr>) station_code
            request_id now"
    by (simp add: get_active_for_station_def try_same try_without_row [OF b c])
next
  assume "(\<exists>e. query_station db station_code = Inl e) \<or> \<not> campaigns_ok db
        \<or> (\<not> branches_ok db \<and> (\<exists>s. query_station db station_code = Inr (Some s)))"
  then have e: "l_campaigns (active_by_station_try db station_code now) = []"
    by (rule try_raised)
  show "\<forall>r. active_by_station db station_code now = Inr r \<longrightarrow>
             r_campaigns r = [] \<and> r_total r = 0"
    using e by (auto simp add: active_by_station_def Let_def split: sum.splits)
  show "\<forall>t. get_active_for_station db station_code request_id now = Inr t \<longrightarrow>
             t_campaigns t = [] \<and> t_total t = 0"
    using e by (auto simp add: get_active_for_station_def try_same Let_def split: sum.splits)
next
  assume a: "\<not> campaigns_ok db \<and> query_station db station_code = Inr None"
  then have e: "l_campaigns (active_by_station_try db station_code now) = []"
    by (intro try_raised) simp
  have s: "l_station (active_by_station_try db station_code now) = Some None"
    using a by (simp add: active_by_station_try_def query_active_campaigns_def)
  have rd: "read_if_station (active_by_station_try db station_code now) v = Inr None" for v
    using s by (simp add: read_if_station_def)
  show "\<exists>r. active_by_station db station_code now = Inr r
             \<and> r_branch_code r = None \<and> r_region r = None \<and> r_campaigns r = []"
    using e rd by (simp add: active_by_station_def Let_def)
  show "\<exists>t. get_active_for_station db station_code request_id now = Inr t
             \<and> t_branch_code t = None \<and> t_region t = None \<and> t_campaigns t = []"
    using e rd by (simp add: get_active_for_station_def try_same Let_def)
qed

text \<open>
  Campaign F has a region and a station but no branch. With F between the other rows,
  station 001 gets A, C, B and E, as it does without F. And when the campaign table of
  the scenario cannot be read, the request for the unknown code \<open>does-not-exist\<close> gets the
  empty response.
\<close>

theorem malformed_dropped_failures_caught_witness:
  "or_empty (c_branches (mk_campaign 6 ''F'' [] [''Sudeste''] [''001''] 1)) = []
   \<and> or_empty (c_stations (mk_campaign 6 ''F'' [] [''Sudeste''] [''001''] 1)) \<noteq> []
   \<and> map_sum id (\<lambda>r. map e_name (r_campaigns r)) (active_by_station mixed_db ''001'' 50)
       = Inr [''A'', ''C'', ''B'', ''E'']
   \<and> active_by_station mixed_db ''001'' 50 = active_by_station mixed_db_without ''001'' 50
   \<and> \<not> campaigns_ok catalog_down_db
   \<and> query_station catalog_down_db ''does-not-exist'' = Inr None
   \<and> active_by_station catalog_down_db ''does-not-exist'' 50
       = Inr \<lparr>r_station_code = ''does-not-exist'', r_branch_code = None, r_region = None,
              r_campaigns = [], r_total = 0\<rparr>"
proof -
  let ?pre = "[mk_campaign 1 ''A'' [] [] [] 0, mk_campaign 2 ''B'' [] [''Sudeste''] [] 5]"
  let ?bad = "mk_campaign 6 ''F'' [] [''Sudeste''] [''001''] 1"
  let ?post = "[mk_campaign 3 ''C'' [''SP01''] [] [] 3,
                mk_campaign 4 ''D'' [''SP01''] [] [''002''] 10,
                mk_campaign 5 ''E'' [''SP01''] [] [''001''] 7]"
  have m: "or_empty (c_branches ?bad) = []" "or_empty (c_stations ?bad) \<noteq> []"
    by (simp_all add: mk_campaign_def or_empty_def)
  have u1: "scenario_db\<lparr>campaigns_tbl := ?pre @ ?bad # ?post\<rparr> = mixed_db"
    by (simp add: mixed_db_def)
  have u2: "scenario_db\<lparr>campaigns_tbl := ?pre @ ?post\<rparr> = mixed_db_without"
    by (simp add: mixed_db_without_def)
  have ev: "map_sum id (\<lambda>r. map e_name (r_campaigns r)) (active_by_station mixed_db ''001'' 50)
       = Inr [''A'', ''C'', ''B'', ''E'']"
    by (simp add: eval_defs mixed_db_def)
  have eq: "active_by_station mixed_db ''001'' 50 = active_by_station mixed_db_without ''001'' 50"
    using m malformed_dropped_failures_caught
      [where bad = ?bad and db = scenario_db and pre = ?pre and post = ?post
         and station_code = "''001''" and now = 50 and request_id = None]
    by (simp only: u1 u2 simp_thms)
  have h: "\<not> campaigns_ok catalog_down_db" by (simp add: catalog_down_db_def scenario_db_def)
  have q: "query_station catalog_down_db ''does-not-exist'' = Inr None"
    by (simp add: query_station_def NUL_def catalog_down_db_def scenario_db_def)
  have down: "active_by_station catalog_down_db ''does-not-exist'' 50
       = Inr \<lparr>r_station_code = ''does-not-exist'', r_branch_code = None, r_region = None,
              r_campaigns = [], r_total = 0\<rparr>"
    by (simp add: eval_defs catalog_down_db_def)
  show ?thesis
    using m ev eq h q down
      malformed_dropped_failures_caught
        [where bad = ?bad and db = catalog_down_db and pre = ?pre and post = ?post
           and station_code = "''does-not-exist''" and now = 50 and request_id = None]
    by (simp only: simp_thms)
qed

text \<open>
  The claim as stated fails twice. With an unreadable campaign table the request for an
  unknown station gets a response, not a service error. And the candidate query is not
  the one failure that empties the result: with an unreadable branch table the request
  for station 001 gets no campaign at all, although the four campaigns are candidates
  and the global campaign A needs no branch.
\<close>

theorem failures_swallowed:
  "active_by_station catalog_down_db ''does-not-exist'' 50
     = Inr \<lparr>r_station_code = ''does-not-exist'', r_branch_code = None, r_region = None,
            r_campaigns = [], r_total = 0\<rparr>
   \<and> map_sum id (map c_name) (query_active_campaigns branches_down_db 50)
       = Inr [''A'', ''B'', ''C'', ''D'']
   \<and> active_by_station branches_down_db ''001'' 50
       = Inr \<lparr>r_station_code = ''001'', r_branch_code = None, r_region = None,
              r_campaigns = [], r_total = 0\<rparr>"
  by (simp add: eval_defs catalog_down_db_def branches_down_db_def)


section \<open>Row order\<close>

lemma ranked_perm:
  assumes "mset rows = mset tbl" and "inj_on rank_key {c \<in> set tbl. C c}"
  shows "sorted_reverse rank_key (filter (\<lambda>x. C x \<and> M x) rows)
           = sorted_reverse rank_key (filter (\<lambda>x. C x \<and> M x) tbl)"
proof (rule sorted_reverse_perm)
  show "mset (filter (\<lambda>x. C x \<and> M x) rows) = mset (filter (\<lambda>x. C x \<and> M x) tbl)"
    using assms(1) by simp
  have "set rows = set tbl" using assms(1) by (rule mset_eq_setD)
  then have "set (filter (\<lambda>x. C x \<and> M x) rows) \<subseteq> {c \<in> set tbl. C c}" by auto
  then show "inj_on rank_key (set (filter (\<lambda>x. C x \<and> M x) rows))"
    using assms(2) by (rule inj_on_subset [rotated])
qed

lemma try_perm:
  assumes "mset rows = mset (campaigns_tbl db)"
    and "inj_on rank_key {c \<in> set (campaigns_tbl db). is_candidate now c}"
  shows "active_by_station_try (db\<lparr>campaigns_tbl := rows\<rparr>) station_code now
           = active_by_station_try db station_code now"
proof -
  let ?db = "db\<lparr>campaigns_tbl := rows\<rparr>"
  have qs: "query_station ?db station_code = query_station db station_code"
    by (simp add: query_station_def)
  have sb: "station_branch ?db s = station_branch db s" for s
    by (simp add: station_branch_def)
  have sl: "station_location ?db st = station_location db st" for st
    by (cases st) (simp_all add: station_location_def sb)
  show ?thesis
  proof (cases "query_station db station_code")
    case (Inl e)
    then show ?thesis by (simp add: active_by_station_try_def qs)
  next
    case (Inr st)
    show ?thesis
    proof (cases "campaigns_ok db")
      case False
      then show ?thesis
        using Inr by (simp add: active_by_station_try_def qs query_active_campaigns_def)
    next
      case True
      show ?thesis
      proof (cases "station_location db st")
        case (Inl e)
        then show ?thesis
          using Inr True
          by (simp add: active_by_station_try_def qs sl query_active_campaigns_def)
      next
        case loc: (Inr p)
        obtain bc rg where p: "p = (bc, rg)" by (cases p)
        show ?thesis
          using Inr True loc p
          by (simp add: active_by_station_try_def qs sl query_active_campaigns_def
              active_by_station_loop_filter ranked_perm [OF assms])
      qed
    qed
  qed
qed

lemma rank_key_inj:
  assumes "\<forall>c \<in> set tbl. \<forall>c' \<in> set tbl.
             C c \<and> C c' \<and> c_created_at c = c_created_at c'
             \<and> (case c_priority c of None \<Rightarrow> 0 | Some p \<Rightarrow> p)
                 = (case c_priority c' of None \<Rightarrow> 0 | Some p \<Rightarrow> p)
             \<longrightarrow> c = c'"
  shows "inj_on rank_key {c \<in> set tbl. C c}"
proof (rule inj_onI)
  fix c c'
  assume c: "c \<in> {c \<in> set tbl. C c}" and c': "c' \<in> {c \<in> set tbl. C c}"
    and k: "rank_key c = rank_key c'"
  from k have "c_created_at c = c_created_at c'"
    by (simp add: rank_key_def)
  moreover from k have "(case c_priority c of None \<Rightarrow> 0 | Some p \<Rightarrow> p)
                 = (case c_priority c' of None \<Rightarrow> 0 | Some p \<Rightarrow> p)"
    by (auto simp add: rank_key_def split: option.splits if_splits)
  ultimately show "c = c'" using assms c c' by blast
qed

text \<open>
  Claim C6, as the code has it. The candidate query has no order of its own, and the sort
  is stable on the pair of the negated priority (a null priority counting as 0) and the
  creation time. If no two different candidates have both the same creation time and
  the same priority, a null priority counting as 0, then both handlers give the same
  result for every order in which the campaign table hands back the same rows.
\<close>

theorem row_order_irrelevant:
  assumes "mset rows = mset (campaigns_tbl db)"
    and "\<forall>c \<in> set (campaigns_tbl db). \<forall>c' \<in> set (campaigns_tbl db).
           is_candidate now c \<and> is_candidate now c' \<and> c_created_at c = c_created_at c'
           \<and> (case c_priority c of None \<Rightarrow> 0 | Some p \<Rightarrow> p)
               = (case c_priority c' of None \<Rightarrow> 0 | Some p \<Rightarrow> p)
           \<longrightarrow> c = c'"
  shows "active_by_station (db\<lparr>campaigns_tbl := rows\<rparr>) station_code now
           = active_by_station db station_code now
         \<and> get_active_for_station (db\<lparr>campaigns_tbl := rows\<rparr>) station_code request_id now
           = get_active_for_station db station_code request_id now"
proof -
  have i: "inj_on rank_key {c \<in> set (campaigns_tbl db). is_candidate now c}"
    using assms(2) by (rule rank_key_inj)
  show ?thesis
    by (simp add: active_by_station_def get_active_for_station_def try_same
        try_perm [OF assms(1) i] campaigns_with_images_rows)
qed

text \<open>
  P and Q share the priority 1 but not the creation time; P, R and S share the creation
  time 10 but have the priorities 1, 2 and null. In both row orders the response lists
  S, Q, P, R.
\<close>

theorem row_order_irrelevant_witness:
  "mset (campaigns_tbl distinct_keys_db_permuted) = mset (campaigns_tbl distinct_keys_db)
   \<and> map_sum id (\<lambda>r. map e_name (r_campaigns r)) (active_by_station distinct_keys_db ''001'' 50)
       = Inr [''S'', ''Q'', ''P'', ''R'']
   \<and> active_by_station distinct_keys_db_permuted ''001'' 50
       = active_by_station distinct_keys_db ''001'' 50"
proof -
  have m: "mset (campaigns_tbl distinct_keys_db_permuted) = mset (campaigns_tbl distinct_keys_db)"
    by (simp add: distinct_keys_db_permuted_def distinct_keys_db_def)
  have d: "\<forall>c \<in> set (campaigns_tbl distinct_keys_db).
           \<forall>c' \<in> set (campaigns_tbl distinct_keys_db).
           is_candidate 50 c \<and> is_candidate 50 c' \<and> c_created_at c = c_created_at c'
           \<and> (case c_priority c of None \<Rightarrow> 0 | Some p \<Rightarrow> p)
               = (case c_priority c' of None \<Rightarrow> 0 | Some p \<Rightarrow> p)
           \<longrightarrow> c = c'"
    by (simp add: distinct_keys_db_def scenario_db_def mk_campaign_def)
  have u: "distinct_keys_db\<lparr>campaigns_tbl := campaigns_tbl distinct_keys_db_permuted\<rparr>
             = distinct_keys_db_permuted"
    by (simp add: distinct_keys_db_permuted_def distinct_keys_db_def scenario_db_def)
  have ev: "map_sum id (\<lambda>r. map e_name (r_campaigns r))
              (active_by_station distinct_keys_db ''001'' 50)
       = Inr [''S'', ''Q'', ''P'', ''R'']"
    by (simp add: eval_defs distinct_keys_db_def)
  show ?thesis
    using m ev row_order_irrelevant [OF m d, of "''001''" None] by (simp only: u simp_thms)
qed

text \<open>
  X and Y are global, with the same priority and the same creation time. With the rows
  X, Y the response lists 1, 2; with the rows Y, X it lists 2, 1.
\<close>

theorem tie_follows_row_order:
  "map_sum id (\<lambda>r. map e_id (r_campaigns r)) (active_by_station tie_db ''001'' 50) = Inr [1, 2]
   \<and> map_sum id (\<lambda>r. map e_id (r_campaigns r)) (active_by_station tie_db_swapped ''001'' 50)
       = Inr [2, 1]
   \<and> mset (campaigns_tbl tie_db_swapped) = mset (campaigns_tbl tie_db)"
  by (simp add: eval_defs tie_db_def tie_db_swapped_def)

end
